theory Spec2Isabelle
  imports Main "HOL-Library.Word" "HOL-Library.Sublist"
begin

section \<open>JavaScript values used by the servers\<close>

text \<open>
  A JavaScript string is a sequence of UTF-16 code units. String literals of the source
  are written \<open>js ''...''\<close>; \<open>js\<close> is also how Node presents the bytes of an HTTP header
  value to the program (one code unit per byte).
\<close>

type_synonym jsstring = "16 word list"

type_synonym buffer = "8 word list"

definition js :: "string \<Rightarrow> jsstring" where
  "js s = map (\<lambda>c. of_nat (of_char c)) s"

text \<open>\<open>!v\<close> for a value that is \<open>undefined\<close> or a string.\<close>

definition falsy :: "jsstring option \<Rightarrow> bool" where
  "falsy v = (case v of None \<Rightarrow> True | Some s \<Rightarrow> s = [])"

text \<open>\<open>v || d\<close> for a value that is \<open>undefined\<close> or a string.\<close>

definition or_default :: "jsstring option \<Rightarrow> jsstring \<Rightarrow> jsstring" where
  "or_default v d = (case v of None \<Rightarrow> d | Some s \<Rightarrow> if s = [] then d else s)"

text \<open>\<open>a || b\<close> where both may be \<open>undefined\<close>.\<close>

definition or_else :: "jsstring option \<Rightarrow> jsstring option \<Rightarrow> jsstring option" where
  "or_else a b = (if falsy a then b else a)"

definition startsWith :: "jsstring \<Rightarrow> jsstring \<Rightarrow> bool" where
  "startsWith s p = (take (length p) s = p)"

definition substring :: "jsstring \<Rightarrow> nat \<Rightarrow> jsstring" where
  "substring s n = drop n s"

datatype json =
    JNull
  | JBool bool
  | JNum int
  | JStr jsstring
  | JArr "json list"
  | JObj "(string \<times> json) list"

fun truthy :: "json \<Rightarrow> bool" where
  "truthy JNull = False"
| "truthy (JBool b) = b"
| "truthy (JNum n) = (n \<noteq> 0)"
| "truthy (JStr s) = (s \<noteq> [])"
| "truthy (JArr xs) = True"
| "truthy (JObj kvs) = True"

text \<open>
  Thrown values. \<open>Error m c\<close> is \<open>new Error(m)\<close> with the ad hoc \<open>code\<close> property
  \<open>c\<close> (\<open>None\<close> when the source sets none).
\<close>

datatype js_error =
    Error jsstring "int option"
  | CalDAVError jsstring
  | CardDAVError jsstring
  | RangeError jsstring

subsection \<open>\<open>Buffer.from(string)\<close>: UTF-8 encoding of UTF-16 code units\<close>

definition replacement :: "nat list" where
  "replacement = [0xEF, 0xBF, 0xBD]"

definition utf8_3 :: "nat \<Rightarrow> nat list" where
  "utf8_3 u = [0xE0 + u div 4096, 0x80 + (u div 64) mod 64, 0x80 + u mod 64]"

definition utf8_4 :: "nat \<Rightarrow> nat list" where
  "utf8_4 cp = [0xF0 + cp div 262144, 0x80 + (cp div 4096) mod 64,
                0x80 + (cp div 64) mod 64, 0x80 + cp mod 64]"

text \<open>
  One or two bytes below U+0800, three bytes for the rest of the basic plane, four bytes
  for a surrogate pair; a lone surrogate is encoded as U+FFFD.
\<close>

fun utf8_encode :: "nat list \<Rightarrow> nat list" where
  "utf8_encode [] = []"
| "utf8_encode (u # us) =
     (if u < 0x80 then u # utf8_encode us
      else if u < 0x800 then (0xC0 + u div 64) # (0x80 + u mod 64) # utf8_encode us
      else if 0xD800 \<le> u \<and> u < 0xDC00 then
        (case us of
           [] \<Rightarrow> replacement
         | v # vs \<Rightarrow>
             if 0xDC00 \<le> v \<and> v < 0xE000
             then utf8_4 (0x10000 + (u - 0xD800) * 1024 + (v - 0xDC00)) @ utf8_encode vs
             else replacement @ utf8_encode us)
      else if 0xDC00 \<le> u \<and> u < 0xE000 then replacement @ utf8_encode us
      else utf8_3 u @ utf8_encode us)"

definition Buffer_from :: "jsstring \<Rightarrow> buffer" where
  "Buffer_from s = map of_nat (utf8_encode (map unat s))"

text \<open>
  \<open>crypto.timingSafeEqual(a, b)\<close> throws a RangeError when the byte lengths differ and
  otherwise tells whether the contents are equal.
\<close>

definition timingSafeEqual :: "buffer \<Rightarrow> buffer \<Rightarrow> js_error + bool" where
  "timingSafeEqual a b =
     (if length a \<noteq> length b
      then Inl (RangeError (js ''Input buffers must have the same byte length''))
      else Inr (a = b))"

section \<open>Observable effects\<close>

datatype log_level = Debug | Info | Warn | Err

datatype account_type = caldav | carddav

datatype credentials =
    BasicCredentials "jsstring option" "jsstring option"
  | OAuthCredentials jsstring "jsstring option" "jsstring option" "jsstring option" "jsstring option"

record dav_client =
  client_serverUrl :: "jsstring option"
  client_credentials :: credentials
  client_authMethod :: jsstring
  defaultAccountType :: account_type
  logged_in :: bool

datatype phase = Start | Success json | Failure js_error

record log_context =
  requestId :: "jsstring option"
  transport :: jsstring
  duration :: "int option"

text \<open>
  What a run of the program does besides returning: lines written to the diagnostic
  logger, entries of the tool-call logger, reads of the clock, the registry lookup, the
  invocation of a tool handler, accesses to the DAV session, logins over the network,
  HTTP responses, the comparison primitive, the life cycle of per-request objects and the
  end of the process. The first number of a life-cycle event is the response object in
  whose route handler (or close listener) the operation runs; the others are the
  transport and server instances it acts on.
\<close>

datatype event =
    Log log_level jsstring
  | ToolCallLog phase jsstring json log_context
  | DateNow int
  | RegistryFind jsstring
  | RegistryList
  | HandlerCall jsstring json
  | DavSessionAccess account_type
  | DavLogin dav_client
  | ResJson nat int jsstring
  | ResResult json
  | ResError "int option" jsstring
  | TimingSafeEqualCall buffer buffer
  | NewTransport nat nat
  | NewServer nat nat
  | OnClose nat nat nat
  | Connect nat nat nat
  | HandleRequest nat nat
  | TransportClose nat nat
  | ServerClose nat nat
  | ProcessExit int

type_synonym env = "string \<Rightarrow> jsstring option"

section \<open>Authentication gate (\<open>authenticateBearer\<close>)\<close>

record request =
  authorization :: "jsstring option"

datatype gate_outcome = Returned | Next | Thrown js_error

definition unauthorized :: "jsstring \<Rightarrow> event list \<times> gate_outcome" where
  "unauthorized msg = ([Log Warn msg, ResJson 401 (-32001) msg], Returned)"

definition misconfigured :: "event list \<times> gate_outcome" where
  "misconfigured =
     ([Log Err (js ''Server misconfiguration: BEARER_TOKEN not set''),
       ResJson 500 (-32603) (js ''Server misconfiguration: BEARER_TOKEN not set'')],
      Returned)"

text \<open>
  The gate. The condition \<open>a.length !== b.length || !crypto.timingSafeEqual(a, b)\<close>
  evaluates its right operand only when the lengths are equal; the call is recorded in
  the trace, and an exception of the primitive would leave the gate as \<open>Thrown\<close>.
\<close>

definition authenticateBearer :: "env \<Rightarrow> request \<Rightarrow> event list \<times> gate_outcome" where
  "authenticateBearer env req =
     (case env ''BEARER_TOKEN'' of
        None \<Rightarrow> misconfigured
      | Some bearerToken \<Rightarrow>
          if bearerToken = [] then misconfigured
          else
            (case authorization req of
               None \<Rightarrow> unauthorized (js ''Unauthorized: Bearer token required'')
             | Some authHeader \<Rightarrow>
                 if authHeader = [] \<or> \<not> startsWith authHeader (js ''Bearer '') then
                   unauthorized (js ''Unauthorized: Bearer token required'')
                 else
                   let token = substring authHeader 7;
                       tokenBuffer = Buffer_from token;
                       secretBuffer = Buffer_from bearerToken
                   in if length tokenBuffer \<noteq> length secretBuffer then
                        unauthorized (js ''Unauthorized: Invalid token'')
                      else
                        (case timingSafeEqual tokenBuffer secretBuffer of
                           Inl e \<Rightarrow> ([TimingSafeEqualCall tokenBuffer secretBuffer], Thrown e)
                         | Inr same \<Rightarrow>
                             if \<not> same then
                               (TimingSafeEqualCall tokenBuffer secretBuffer
                                  # fst (unauthorized (js ''Unauthorized: Invalid token'')),
                                Returned)
                             else ([TimingSafeEqualCall tokenBuffer secretBuffer], Next))))"

text \<open>
  \<open>app.post('/mcp', authenticateBearer, handler)\<close>: the route handler runs only when
  the gate calls \<open>next()\<close>. The route handler is any function of the request.
\<close>

definition post_mcp :: "env \<Rightarrow> (request \<Rightarrow> event list) \<Rightarrow> request \<Rightarrow> event list" where
  "post_mcp env route req =
     (case authenticateBearer env req of
        (evs, Next) \<Rightarrow> evs @ route req
      | (evs, Returned) \<Rightarrow> evs
      | (evs, Thrown e) \<Rightarrow> evs)"

text \<open>Events that belong to protocol dispatch: registry, DAV session, tool-call log.\<close>

fun dispatch_event :: "event \<Rightarrow> bool" where
  "dispatch_event (ToolCallLog p n a c) = True"
| "dispatch_event (RegistryFind n) = True"
| "dispatch_event RegistryList = True"
| "dispatch_event (HandlerCall n a) = True"
| "dispatch_event (DavSessionAccess t) = True"
| "dispatch_event _ = False"

section \<open>Tool registry and the two protocol handlers\<close>

text \<open>
  A registry entry is what \<open>tools/list\<close> shows (name, description, input schema)
  extended by the handler. A handler is opaque: given the arguments it does what it does
  (its own events, among them its accesses to the DAV session) and either returns a
  result or throws.
\<close>

record tool_descriptor =
  name :: jsstring
  description :: jsstring
  inputSchema :: json

record tool = tool_descriptor +
  handler :: "json \<Rightarrow> event list \<times> (js_error + json)"

record call_params =
  params_name :: jsstring
  arguments :: "json option"

text \<open>
  The table \<open>MCP_ERROR_CODES\<close> and the function \<open>createToolErrorResponse\<close> live in
  \<open>error-handler.js\<close>; the handlers take them as parameters.
\<close>

record error_handler =
  METHOD_NOT_FOUND :: int
  createToolErrorResponse :: "js_error \<Rightarrow> bool \<Rightarrow> json"

fun message :: "js_error \<Rightarrow> jsstring" where
  "message (Error m c) = m"
| "message (CalDAVError m) = m"
| "message (CardDAVError m) = m"
| "message (RangeError m) = m"

text \<open>\<open>tools.map(t => ({ name: t.name, description: t.description, inputSchema: t.inputSchema }))\<close>\<close>

definition project :: "tool \<Rightarrow> json" where
  "project t =
     JObj [(''name'', JStr (name t)),
           (''description'', JStr (description t)),
           (''inputSchema'', inputSchema t)]"

definition listTools :: "jsstring \<Rightarrow> tool list \<Rightarrow> event list \<times> (js_error + json)" where
  "listTools msg tools =
     ([Log Debug msg, RegistryList], Inr (JObj [(''tools'', JArr (map project tools))]))"

definition listTools_http :: "tool list \<Rightarrow> event list \<times> (js_error + json)" where
  "listTools_http tools = listTools (js ''tools/list request'') tools"

definition listTools_stdio :: "tool list \<Rightarrow> event list \<times> (js_error + json)" where
  "listTools_stdio tools = listTools (js ''tools/list request received'') tools"

text \<open>\<open>request.params.arguments || {}\<close>\<close>

definition arguments_or_empty :: "json option \<Rightarrow> json" where
  "arguments_or_empty a =
     (case a of None \<Rightarrow> JObj [] | Some v \<Rightarrow> if truthy v then v else JObj [])"

text \<open>
  \<open>tools/call\<close> of the HTTP server. \<open>now0\<close> and \<open>now1\<close> are what the first and the
  second \<open>Date.now()\<close> of the call return; \<open>dev\<close> is
  \<open>process.env.NODE_ENV === 'development'\<close>.
\<close>

definition callTool_http ::
  "error_handler \<Rightarrow> bool \<Rightarrow> tool list \<Rightarrow> jsstring \<Rightarrow> int \<Rightarrow> int \<Rightarrow> call_params
     \<Rightarrow> event list \<times> (js_error + json)" where
  "callTool_http eh dev tools rid now0 now1 params =
     (let toolName = params_name params;
          args = arguments_or_empty (arguments params);
          ev0 = [Log Info (js ''tools/call request''), RegistryFind toolName]
      in case find (\<lambda>t. name t = toolName) tools of
           None \<Rightarrow>
             (ev0 @ [Log Err (js ''Tool not found'')],
              Inl (Error (js ''Unknown tool: '' @ toolName) (Some (METHOD_NOT_FOUND eh))))
         | Some t \<Rightarrow>
             let startTime = now0;
                 ctx = \<lparr>requestId = Some rid, transport = js ''http'', duration = None\<rparr>;
                 ev1 = ev0 @ [DateNow now0, ToolCallLog Start toolName args ctx,
                              HandlerCall toolName args]
             in case handler t args of
                  (hev, Inr result) \<Rightarrow>
                    let d = now1 - startTime
                    in (ev1 @ hev @
                         [DateNow now1,
                          Log Info (js ''Tool executed successfully''),
                          ToolCallLog (Success result) toolName args (ctx\<lparr>duration := Some d\<rparr>)],
                        Inr result)
                | (hev, Inl error) \<Rightarrow>
                    let d = now1 - startTime
                    in (ev1 @ hev @
                         [DateNow now1,
                          Log Err (js ''Tool execution error''),
                          ToolCallLog (Failure error) toolName args (ctx\<lparr>duration := Some d\<rparr>)],
                        Inr (createToolErrorResponse eh error dev)))"

text \<open>\<open>tools/call\<close> of the stdio server: no request id, one more debug line.\<close>

definition callTool_stdio ::
  "error_handler \<Rightarrow> bool \<Rightarrow> tool list \<Rightarrow> int \<Rightarrow> int \<Rightarrow> call_params
     \<Rightarrow> event list \<times> (js_error + json)" where
  "callTool_stdio eh dev tools now0 now1 params =
     (let toolName = params_name params;
          toolArgs = arguments_or_empty (arguments params);
          ev0 = [Log Info (js ''tools/call request received''), RegistryFind toolName]
      in case find (\<lambda>t. name t = toolName) tools of
           None \<Rightarrow>
             (ev0 @ [Log Err (js ''Tool not found'')],
              Inl (Error (js ''Unknown tool: '' @ toolName) (Some (METHOD_NOT_FOUND eh))))
         | Some t \<Rightarrow>
             let startTime = now0;
                 ctx = \<lparr>requestId = None, transport = js ''stdio'', duration = None\<rparr>;
                 ev1 = ev0 @ [DateNow now0, ToolCallLog Start toolName toolArgs ctx,
                              Log Debug (js ''Executing tool''),
                              HandlerCall toolName toolArgs]
             in case handler t toolArgs of
                  (hev, Inr result) \<Rightarrow>
                    let d = now1 - startTime
                    in (ev1 @ hev @
                         [DateNow now1,
                          Log Info (js ''Tool executed successfully''),
                          ToolCallLog (Success result) toolName toolArgs
                            (ctx\<lparr>duration := Some d\<rparr>)],
                        Inr result)
                | (hev, Inl error) \<Rightarrow>
                    let d = now1 - startTime
                    in (ev1 @ hev @
                         [DateNow now1,
                          Log Err (js ''Tool execution error''),
                          ToolCallLog (Failure error) toolName toolArgs
                            (ctx\<lparr>duration := Some d\<rparr>)],
                        Inr (createToolErrorResponse eh error dev)))"

section \<open>DAV session provider (\<open>TsdavClientManager\<close>)\<close>

record config =
  serverUrl :: "jsstring option"
  cardDavServerUrl :: "jsstring option"
  authMethod :: "jsstring option"
  username :: "jsstring option"
  password :: "jsstring option"
  clientId :: "jsstring option"
  clientSecret :: "jsstring option"
  refreshToken :: "jsstring option"
  tokenUrl :: "jsstring option"

record TsdavClientManager =
  calDavClient :: "dav_client option"
  cardDavClient :: "dav_client option"
  this_config :: "config option"
  this_authMethod :: "jsstring option"

text \<open>The constructor: every field is \<open>null\<close>.\<close>

definition tsdavManager :: TsdavClientManager where
  "tsdavManager =
     \<lparr>calDavClient = None, cardDavClient = None, this_config = None, this_authMethod = None\<rparr>"

text \<open>
  The network decides what \<open>client.login()\<close> does: it rejects with an error or
  resolves. A login is the only network call of the initialization.
\<close>

type_synonym network = "dav_client \<Rightarrow> js_error option"

definition login :: "network \<Rightarrow> dav_client \<Rightarrow> event list \<times> (js_error + dav_client)" where
  "login net c =
     ([DavLogin c],
      case net c of Some e \<Rightarrow> Inl e | None \<Rightarrow> Inr (c\<lparr>logged_in := True\<rparr>))"

definition basic_client :: "config \<Rightarrow> account_type \<Rightarrow> dav_client" where
  "basic_client cfg a =
     \<lparr>client_serverUrl =
        (if a = carddav then or_else (cardDavServerUrl cfg) (serverUrl cfg) else serverUrl cfg),
      client_credentials = BasicCredentials (username cfg) (password cfg),
      client_authMethod = js ''Basic'',
      defaultAccountType = a,
      logged_in = False\<rparr>"

definition oauth_client :: "config \<Rightarrow> account_type \<Rightarrow> dav_client" where
  "oauth_client cfg a =
     \<lparr>client_serverUrl =
        (if a = carddav then or_else (cardDavServerUrl cfg) (serverUrl cfg) else serverUrl cfg),
      client_credentials =
        OAuthCredentials
          (or_default (tokenUrl cfg) (js ''https://accounts.google.com/o/oauth2/token''))
          (username cfg) (refreshToken cfg) (clientId cfg) (clientSecret cfg),
      client_authMethod = js ''Oauth'',
      defaultAccountType = a,
      logged_in = False\<rparr>"

text \<open>
  The methods return the events, the manager as they leave it and the error they throw,
  if any.
\<close>

definition initializeBasicAuth ::
  "network \<Rightarrow> config \<Rightarrow> TsdavClientManager
     \<Rightarrow> event list \<times> TsdavClientManager \<times> js_error option" where
  "initializeBasicAuth net cfg this =
     (if falsy (username cfg) \<or> falsy (password cfg) then
        ([], this, Some (Error (js ''Basic Auth requires username and password'') None))
      else
        let this1 = this\<lparr>calDavClient := Some (basic_client cfg caldav),
                         cardDavClient := Some (basic_client cfg carddav)\<rparr>
        in case login net (basic_client cfg caldav) of
             (ev1, Inl e) \<Rightarrow> (ev1, this1, Some e)
           | (ev1, Inr cal) \<Rightarrow>
               let this2 = this1\<lparr>calDavClient := Some cal\<rparr>;
                   ev2 = ev1 @ [Log Debug (js ''CalDAV client logged in (Basic Auth)'')]
               in case login net (basic_client cfg carddav) of
                    (ev3, Inl e) \<Rightarrow> (ev2 @ ev3, this2, Some e)
                  | (ev3, Inr crd) \<Rightarrow>
                      (ev2 @ ev3 @ [Log Debug (js ''CardDAV client logged in (Basic Auth)'')],
                       this2\<lparr>cardDavClient := Some crd\<rparr>, None))"

definition initializeOAuth ::
  "network \<Rightarrow> config \<Rightarrow> TsdavClientManager
     \<Rightarrow> event list \<times> TsdavClientManager \<times> js_error option" where
  "initializeOAuth net cfg this =
     (if falsy (username cfg) then
        ([], this, Some (Error (js ''OAuth requires username (user email)'') None))
      else if falsy (clientId cfg) \<or> falsy (clientSecret cfg) \<or> falsy (refreshToken cfg) then
        ([], this,
         Some (Error (js ''OAuth requires clientId, clientSecret, and refreshToken'') None))
      else
        let ev0 = [Log Debug (js ''Configuring OAuth2 credentials'')];
            this1 = this\<lparr>calDavClient := Some (oauth_client cfg caldav),
                         cardDavClient := Some (oauth_client cfg carddav)\<rparr>
        in case login net (oauth_client cfg caldav) of
             (ev1, Inl e) \<Rightarrow> (ev0 @ ev1, this1, Some e)
           | (ev1, Inr cal) \<Rightarrow>
               let this2 = this1\<lparr>calDavClient := Some cal\<rparr>;
                   ev2 = ev0 @ ev1 @ [Log Debug (js ''CalDAV client logged in (OAuth2)'')]
               in case login net (oauth_client cfg carddav) of
                    (ev3, Inl e) \<Rightarrow>
                      (ev2 @ ev3 @
                         [Log Warn (js ''CardDAV login failed (expected for Google Calendar)'')],
                       this2, None)
                  | (ev3, Inr crd) \<Rightarrow>
                      (ev2 @ ev3 @ [Log Debug (js ''CardDAV client logged in (OAuth2)'')],
                       this2\<lparr>cardDavClient := Some crd\<rparr>, None))"

definition useOAuth :: "jsstring \<Rightarrow> bool" where
  "useOAuth m = (m = js ''OAuth'' \<or> m = js ''Oauth'')"

definition initialize ::
  "network \<Rightarrow> config \<Rightarrow> TsdavClientManager
     \<Rightarrow> event list \<times> TsdavClientManager \<times> js_error option" where
  "initialize net cfg this =
     (let this0 = this\<lparr>this_config := Some cfg,
                       this_authMethod := Some (or_default (authMethod cfg) (js ''Basic''))\<rparr>;
          (ev, this1, r) =
            (if useOAuth (or_default (authMethod cfg) (js ''Basic'')) then
               (case initializeOAuth net cfg this0 of
                  (ev, res) \<Rightarrow>
                    (Log Info (js ''Initializing tsdav clients with OAuth2'') # ev, res))
             else
               (case initializeBasicAuth net cfg this0 of
                  (ev, res) \<Rightarrow>
                    (Log Info (js ''Initializing tsdav clients with Basic Auth'') # ev, res)))
      in case r of
           None \<Rightarrow> (ev @ [Log Info (js ''tsdav clients initialized and logged in'')], this1, None)
         | Some e \<Rightarrow> (ev @ [Log Err (js ''Failed to initialize tsdav clients'')], this1, Some e))"

definition getCalDavClient :: "TsdavClientManager \<Rightarrow> event list \<times> (js_error + dav_client)" where
  "getCalDavClient this =
     (case calDavClient this of
        None \<Rightarrow>
          ([Log Err (js ''CalDAV client not initialized'')],
           Inl (CalDAVError (js ''CalDAV client not initialized. Call initialize() first.'')))
      | Some c \<Rightarrow> ([], Inr c))"

definition getCardDavClient :: "TsdavClientManager \<Rightarrow> event list \<times> (js_error + dav_client)" where
  "getCardDavClient this =
     (case cardDavClient this of
        None \<Rightarrow>
          ([Log Err (js ''CardDAV client not initialized'')],
           Inl (CardDAVError (js ''CardDAV client not initialized. Call initialize() first.'')))
      | Some c \<Rightarrow> ([], Inr c))"

subsection \<open>Start-up: \<open>initializeTsdav\<close> of the two servers\<close>

definition oauth_config :: "env \<Rightarrow> config" where
  "oauth_config env =
     \<lparr>serverUrl = Some (or_default (env ''GOOGLE_SERVER_URL'')
                     (js ''https://apidata.googleusercontent.com/caldav/v2/'')),
      cardDavServerUrl = None,
      authMethod = Some (js ''OAuth''),
      username = env ''GOOGLE_USER'',
      password = None,
      clientId = env ''GOOGLE_CLIENT_ID'',
      clientSecret = env ''GOOGLE_CLIENT_SECRET'',
      refreshToken = env ''GOOGLE_REFRESH_TOKEN'',
      tokenUrl = Some (or_default (env ''GOOGLE_TOKEN_URL'')
                    (js ''https://accounts.google.com/o/oauth2/token''))\<rparr>"

text \<open>
  The Basic configuration object; the stdio server also passes \<open>CARDDAV_SERVER_URL\<close>,
  the HTTP server does not.
\<close>

definition basic_config :: "env \<Rightarrow> jsstring option \<Rightarrow> config" where
  "basic_config env cardUrl =
     \<lparr>serverUrl = env ''CALDAV_SERVER_URL'',
      cardDavServerUrl = cardUrl,
      authMethod = Some (js ''Basic''),
      username = env ''CALDAV_USERNAME'',
      password = env ''CALDAV_PASSWORD'',
      clientId = None,
      clientSecret = None,
      refreshToken = None,
      tokenUrl = None\<rparr>"

text \<open>The stdio server's \<open>initializeTsdav\<close> throws what goes wrong.\<close>

definition initializeTsdav_stdio ::
  "network \<Rightarrow> env \<Rightarrow> TsdavClientManager
     \<Rightarrow> event list \<times> TsdavClientManager \<times> js_error option" where
  "initializeTsdav_stdio net env this =
     (if useOAuth (or_default (env ''AUTH_METHOD'') (js ''Basic'')) then
        if falsy (env ''GOOGLE_CLIENT_ID'') \<or> falsy (env ''GOOGLE_CLIENT_SECRET'')
           \<or> falsy (env ''GOOGLE_REFRESH_TOKEN'') then
          ([Log Info (js ''Initializing with OAuth2 authentication'')], this,
           Some (Error (js ''OAuth2 requires GOOGLE_CLIENT_ID, GOOGLE_CLIENT_SECRET, and GOOGLE_REFRESH_TOKEN'') None))
        else
          (case initialize net (oauth_config env) this of
             (ev, this1, Some e) \<Rightarrow>
               (Log Info (js ''Initializing with OAuth2 authentication'') # ev, this1, Some e)
           | (ev, this1, None) \<Rightarrow>
               (Log Info (js ''Initializing with OAuth2 authentication'') # ev @
                  [Log Info (js ''OAuth2 clients initialized successfully'')], this1, None))
      else
        if falsy (env ''CALDAV_SERVER_URL'') \<or> falsy (env ''CALDAV_USERNAME'')
           \<or> falsy (env ''CALDAV_PASSWORD'') then
          ([Log Info (js ''Initializing with Basic authentication'')], this,
           Some (Error (js ''Basic Auth requires CALDAV_SERVER_URL, CALDAV_USERNAME, and CALDAV_PASSWORD'') None))
        else
          (case initialize net (basic_config env (env ''CARDDAV_SERVER_URL'')) this of
             (ev, this1, Some e) \<Rightarrow>
               (Log Info (js ''Initializing with Basic authentication'') # ev, this1, Some e)
           | (ev, this1, None) \<Rightarrow>
               (Log Info (js ''Initializing with Basic authentication'') # ev @
                  [Log Info (js ''Basic Auth clients initialized successfully'')], this1, None)))"

text \<open>
  The HTTP server's \<open>initializeTsdav\<close> catches what goes wrong, logs it and ends the
  process with exit code 1; the last component is the exit code, if the process ended.
\<close>

definition initializeTsdav_http ::
  "network \<Rightarrow> env \<Rightarrow> TsdavClientManager
     \<Rightarrow> event list \<times> TsdavClientManager \<times> int option" where
  "initializeTsdav_http net env this =
     (let (ev, this1, r) =
        (if useOAuth (or_default (env ''AUTH_METHOD'') (js ''Basic'')) then
           if falsy (env ''GOOGLE_CLIENT_ID'') \<or> falsy (env ''GOOGLE_CLIENT_SECRET'')
              \<or> falsy (env ''GOOGLE_REFRESH_TOKEN'') then
             ([Log Info (js ''Initializing with OAuth2 authentication'')], this,
              Some (Error (js ''OAuth2 requires GOOGLE_CLIENT_ID, GOOGLE_CLIENT_SECRET, and GOOGLE_REFRESH_TOKEN'') None))
           else
             (case initialize net (oauth_config env) this of
                (ev, this1, Some e) \<Rightarrow>
                  (Log Info (js ''Initializing with OAuth2 authentication'') # ev, this1, Some e)
              | (ev, this1, None) \<Rightarrow>
                  (Log Info (js ''Initializing with OAuth2 authentication'') # ev @
                     [Log Info (js ''OAuth2 clients initialized successfully'')], this1, None))
         else
           if falsy (env ''CALDAV_SERVER_URL'') \<or> falsy (env ''CALDAV_USERNAME'')
              \<or> falsy (env ''CALDAV_PASSWORD'') then
             ([Log Info (js ''Initializing with Basic authentication'')], this,
              Some (Error (js ''Basic Auth requires CALDAV_SERVER_URL, CALDAV_USERNAME, and CALDAV_PASSWORD'') None))
           else
             (case initialize net (basic_config env None) this of
                (ev, this1, Some e) \<Rightarrow>
                  (Log Info (js ''Initializing with Basic authentication'') # ev, this1, Some e)
              | (ev, this1, None) \<Rightarrow>
                  (Log Info (js ''Initializing with Basic authentication'') # ev @
                     [Log Info (js ''Basic Auth clients initialized successfully'')], this1,
                   None)))
      in case r of
           None \<Rightarrow> (ev, this1, None)
         | Some e \<Rightarrow>
             (ev @ [Log Err (js ''Failed to initialize tsdav clients''), ProcessExit 1],
              this1, Some 1))"

section \<open>Stateless HTTP binding: one server and one transport per request\<close>

text \<open>
  The route handler of \<open>POST /mcp\<close> constructs a transport and a server, registers a
  listener for the \<open>close\<close> event of the response and then awaits \<open>server.connect\<close>
  and \<open>transport.handleRequest\<close>. Objects are numbered in the order of their
  construction. The process handles one event at a time: a request arrives and runs up to
  its first \<open>await\<close>, an awaited promise settles and the handler that waits for it
  resumes, or a response stream closes and its listeners run. Requests interleave at
  these points. A frame holds the local variables of a suspended handler.
\<close>

datatype stage = AwaitConnect | AwaitHandle | Finished

record frame =
  transport_of :: nat
  server_of :: nat
  stage :: stage

record http_state =
  next_res :: nat
  next_obj :: nat
  live :: "nat set"
  listeners :: "nat \<Rightarrow> (nat \<times> nat) option"
  frames :: "nat \<Rightarrow> frame option"
  closed :: "nat set"

datatype input = Arrive request | Settled nat "js_error option" bool | Close nat

text \<open>The process after start-up: no request seen yet.\<close>

definition listening :: http_state where
  "listening =
     \<lparr>next_res = 0, next_obj = 0, live = {}, listeners = Map.empty, frames = Map.empty,
      closed = {}\<rparr>"

text \<open>The route handler up to its first \<open>await\<close>, for the response object \<open>r\<close>.\<close>

definition mcp_route :: "nat \<Rightarrow> http_state \<Rightarrow> event list \<times> http_state" where
  "mcp_route r st =
     (let t = next_obj st; s = Suc (next_obj st)
      in ([NewTransport r t, NewServer r s, OnClose r t s, Connect r s t],
          st\<lparr>next_obj := Suc (Suc (next_obj st)),
             live := insert t (insert s (live st)),
             listeners := (listeners st)(r \<mapsto> (t, s)),
             frames := (frames st)(r \<mapsto> \<lparr>transport_of = t, server_of = s,
                                          stage = AwaitConnect\<rparr>)\<rparr>))"

text \<open>
  The awaited promise of the handler of response \<open>r\<close> settles: resolved (\<open>None\<close>) or
  rejected; \<open>headersSent\<close> is \<open>res.headersSent\<close> at that moment.
\<close>

definition resume :: "nat \<Rightarrow> js_error option \<Rightarrow> bool \<Rightarrow> http_state \<Rightarrow> event list \<times> http_state" where
  "resume r outcome headersSent st =
     (case frames st r of
        None \<Rightarrow> ([], st)
      | Some f \<Rightarrow>
          if stage f = Finished then ([], st)
          else
            (case outcome of
               Some e \<Rightarrow>
                 (Log Err (js ''Error handling MCP request'')
                    # (if headersSent then []
                       else [ResJson 500 (-32603) (js ''Internal server error'')]),
                  st\<lparr>frames := (frames st)(r \<mapsto> f\<lparr>stage := Finished\<rparr>)\<rparr>)
             | None \<Rightarrow>
                 if stage f = AwaitConnect then
                   ([HandleRequest r (transport_of f)],
                    st\<lparr>frames := (frames st)(r \<mapsto> f\<lparr>stage := AwaitHandle\<rparr>)\<rparr>)
                 else ([], st\<lparr>frames := (frames st)(r \<mapsto> f\<lparr>stage := Finished\<rparr>)\<rparr>)))"

text \<open>
  The response stream \<open>r\<close> closes: the listener registered by the route handler closes
  its transport and its server. The event fires once per response.
\<close>

definition res_close :: "nat \<Rightarrow> http_state \<Rightarrow> event list \<times> http_state" where
  "res_close r st =
     (if r < next_res st \<and> r \<notin> closed st then
        (case listeners st r of
           None \<Rightarrow> ([], st\<lparr>closed := insert r (closed st)\<rparr>)
         | Some (t, s) \<Rightarrow>
             ([TransportClose r t, ServerClose r s],
              st\<lparr>closed := insert r (closed st), live := live st - {t, s}\<rparr>))
      else ([], st))"

fun step :: "env \<Rightarrow> http_state \<Rightarrow> input \<Rightarrow> event list \<times> http_state" where
  "step env st (Arrive req) =
     (case authenticateBearer env req of
        (evs, Next) \<Rightarrow>
          (case mcp_route (next_res st) (st\<lparr>next_res := Suc (next_res st)\<rparr>) of
             (evs', st1) \<Rightarrow> (evs @ evs', st1))
      | (evs, Returned) \<Rightarrow> (evs, st\<lparr>next_res := Suc (next_res st)\<rparr>)
      | (evs, Thrown e) \<Rightarrow> (evs, st\<lparr>next_res := Suc (next_res st)\<rparr>))"
| "step env st (Settled r outcome headersSent) = resume r outcome headersSent st"
| "step env st (Close r) = res_close r st"

fun run :: "env \<Rightarrow> http_state \<Rightarrow> input list \<Rightarrow> event list \<times> http_state" where
  "run env st [] = ([], st)"
| "run env st (i # ins) =
     (case step env st i of
        (ev, st1) \<Rightarrow> (case run env st1 ins of (ev', st2) \<Rightarrow> (ev @ ev', st2)))"

section \<open>Vocabulary of the properties\<close>

text \<open>
  The bearer credential carried by the raw bytes of an \<open>Authorization\<close> header, if
  any, and the request object the gate sees for such a header.
\<close>

definition bearer_credential :: "string option \<Rightarrow> string option" where
  "bearer_credential hdr =
     (case hdr of
        None \<Rightarrow> None
      | Some h \<Rightarrow> if prefix ''Bearer '' h then Some (drop 7 h) else None)"

definition http_request :: "string option \<Rightarrow> request" where
  "http_request hdr = \<lparr>authorization = map_option js hdr\<rparr>"

fun is_response :: "event \<Rightarrow> bool" where
  "is_response (ResJson s c m) = True"
| "is_response (ResResult r) = True"
| "is_response (ResError c m) = True"
| "is_response _ = False"

definition responses :: "event list \<Rightarrow> event list" where
  "responses evs = filter is_response evs"

fun is_timingSafeEqual :: "event \<Rightarrow> bool" where
  "is_timingSafeEqual (TimingSafeEqualCall a b) = True"
| "is_timingSafeEqual _ = False"

text \<open>Keys and fields of a JSON object.\<close>

fun keys :: "json \<Rightarrow> string list" where
  "keys (JObj kvs) = map fst kvs"
| "keys _ = []"

fun field :: "string \<Rightarrow> json \<Rightarrow> json option" where
  "field k (JObj kvs) = map_of kvs k"
| "field k _ = None"

text \<open>
  What a tool call does beyond looking the tool up: tool-call log entries, the handler
  invocation, accesses to the DAV session and logins.
\<close>

fun call_effect :: "event \<Rightarrow> bool" where
  "call_effect (ToolCallLog p n a c) = True"
| "call_effect (HandlerCall n a) = True"
| "call_effect (DavSessionAccess t) = True"
| "call_effect (DavLogin c) = True"
| "call_effect _ = False"

text \<open>The \<open>duration\<close> of a tool-call log entry.\<close>

fun logged_duration :: "event \<Rightarrow> int option" where
  "logged_duration (ToolCallLog p n a c) = duration c"
| "logged_duration _ = None"

fun is_login :: "event \<Rightarrow> bool" where
  "is_login (DavLogin c) = True"
| "is_login _ = False"

text \<open>Configurations that pass the validation of their mode.\<close>

definition valid_basic :: "config \<Rightarrow> bool" where
  "valid_basic cfg =
     (\<not> useOAuth (or_default (authMethod cfg) (js ''Basic''))
      \<and> \<not> falsy (username cfg) \<and> \<not> falsy (password cfg))"

definition valid_oauth :: "config \<Rightarrow> bool" where
  "valid_oauth cfg =
     (useOAuth (or_default (authMethod cfg) (js ''Basic''))
      \<and> \<not> falsy (username cfg) \<and> \<not> falsy (clientId cfg)
      \<and> \<not> falsy (clientSecret cfg) \<and> \<not> falsy (refreshToken cfg))"

text \<open>
  Which instance an event constructs, uses or closes, each with the response object on
  whose behalf it happens.
\<close>

fun makes :: "event \<Rightarrow> (nat \<times> nat) list" where
  "makes (NewTransport r t) = [(r, t)]"
| "makes (NewServer r s) = [(r, s)]"
| "makes _ = []"

fun uses :: "event \<Rightarrow> (nat \<times> nat) list" where
  "uses (OnClose r t s) = [(r, t), (r, s)]"
| "uses (Connect r s t) = [(r, s), (r, t)]"
| "uses (HandleRequest r t) = [(r, t)]"
| "uses (TransportClose r t) = [(r, t)]"
| "uses (ServerClose r s) = [(r, s)]"
| "uses _ = []"

fun closes :: "event \<Rightarrow> nat list" where
  "closes (TransportClose r t) = [t]"
| "closes (ServerClose r s) = [s]"
| "closes _ = []"

definition made :: "event list \<Rightarrow> (nat \<times> nat) set" where
  "made tr = set (concat (map makes tr))"

definition used :: "event list \<Rightarrow> (nat \<times> nat) set" where
  "used tr = set (concat (map uses tr))"

definition shut :: "event list \<Rightarrow> nat set" where
  "shut tr = set (concat (map closes tr))"


text \<open>The invariant of the HTTP binding, over the trace so far and the state.\<close>

definition lifecycle_inv :: "event list \<Rightarrow> http_state \<Rightarrow> bool" where
  "lifecycle_inv tr st =
     ((\<forall>r x. (r, x) \<in> made tr \<longrightarrow> r < next_res st \<and> x < next_obj st)
      \<and> (\<forall>r r' x. (r, x) \<in> made tr \<and> (r', x) \<in> made tr \<longrightarrow> r = r')
      \<and> used tr \<subseteq> made tr
      \<and> (\<forall>r t s. listeners st r = Some (t, s) \<longrightarrow> (r, t) \<in> made tr \<and> (r, s) \<in> made tr)
      \<and> (\<forall>r x. (r, x) \<in> made tr \<longrightarrow> (\<exists>t s. listeners st r = Some (t, s) \<and> (x = t \<or> x = s)))
      \<and> (\<forall>r f. frames st r = Some f \<longrightarrow> listeners st r = Some (transport_of f, server_of f))
      \<and> (\<forall>r x. (r, x) \<in> made tr \<and> r \<in> closed st \<longrightarrow> x \<notin> live st \<and> x \<in> shut tr)
      \<and> (\<forall>x. x \<in> live st \<longrightarrow> (\<exists>r. (r, x) \<in> made tr \<and> r \<notin> closed st))
      \<and> (\<forall>r. r \<in> closed st \<longrightarrow> r < next_res st))"

section \<open>Example inputs\<close>

definition ping :: tool where
  "ping = \<lparr>name = js ''ping'', description = js ''Replies'', inputSchema = JObj [],
           handler = (\<lambda>a. ([DavSessionAccess caldav], Inr (JStr (js ''pong''))))\<rparr>"

definition broken :: tool where
  "broken = \<lparr>name = js ''broken'', description = js ''Throws'', inputSchema = JObj [],
           handler = (\<lambda>a. ([], Inl (CalDAVError (js ''no calendar''))))\<rparr>"

definition error_handler0 :: error_handler where
  "error_handler0 =
     \<lparr>METHOD_NOT_FOUND = -32601,
      createToolErrorResponse = (\<lambda>e d. JObj [(''isError'', JBool True)])\<rparr>"

definition env_basic_no_password :: env where
  "env_basic_no_password =
     [''CALDAV_SERVER_URL'' \<mapsto> js ''https://dav.example.org/'',
      ''CALDAV_USERNAME'' \<mapsto> js ''alice'']"

definition config_basic :: config where
  "config_basic =
     \<lparr>serverUrl = Some (js ''https://dav.example.org/''), cardDavServerUrl = None,
      authMethod = Some (js ''Basic''), username = Some (js ''alice''),
      password = Some (js ''pw''), clientId = None, clientSecret = None,
      refreshToken = None, tokenUrl = None\<rparr>"

definition config_oauth :: config where
  "config_oauth =
     \<lparr>serverUrl = Some (js ''https://apidata.googleusercontent.com/caldav/v2/''),
      cardDavServerUrl = None,
      authMethod = Some (js ''OAuth''), username = Some (js ''alice@example.org''),
      password = None, clientId = Some (js ''id''), clientSecret = Some (js ''secret''),
      refreshToken = Some (js ''refresh''), tokenUrl = None\<rparr>"

text \<open>A network on which CalDAV logins succeed and CardDAV logins are refused.\<close>

definition no_carddav :: network where
  "no_carddav c =
     (if defaultAccountType c = carddav then Some (Error (js ''CardDAV not supported'') None)
      else None)"

definition env_secret :: env where
  "env_secret = [''BEARER_TOKEN'' \<mapsto> js ''s3cret'']"

definition two_requests :: "input list" where
  "two_requests =
     [Arrive (http_request (Some ''Bearer s3cret'')),
      Arrive (http_request (Some ''Bearer s3cret'')),
      Settled 0 None False,
      Close 0]"

section \<open>Properties of the encoding\<close>

lemma utf8_encode_one: "u < 128 \<Longrightarrow> utf8_encode (u # us) = u # utf8_encode us"
  by simp

lemma utf8_encode_two:
  "128 \<le> u \<Longrightarrow> u < 2048 \<Longrightarrow>
   utf8_encode (u # us) = (192 + u div 64) # (128 + u mod 64) # utf8_encode us"
  by simp

lemma utf8_encode_big:
  "2048 \<le> u \<Longrightarrow> \<exists>b bs. utf8_encode (u # us) = b # bs \<and> 224 \<le> b"
  by (cases us) (simp_all add: replacement_def utf8_3_def utf8_4_def)

lemma utf8_encode_Nil: "utf8_encode us = [] \<longleftrightarrow> us = []"
  by (cases us; cases "tl us") (simp_all add: replacement_def utf8_3_def utf8_4_def)

lemma utf8_3_bytes: "u < 65536 \<Longrightarrow> \<forall>b\<in>set (utf8_3 u). b < 256"
  by (simp add: utf8_3_def) arith

lemma utf8_4_bytes: "cp < 1114112 \<Longrightarrow> \<forall>b\<in>set (utf8_4 cp). b < 256"
  by (simp add: utf8_4_def) arith

lemma replacement_bytes: "\<forall>b\<in>set replacement. b < 256"
  by (simp add: replacement_def)

lemma utf8_encode_bytes:
  "\<forall>u\<in>set us. u < 65536 \<Longrightarrow> \<forall>b\<in>set (utf8_encode us). b < 256"
proof (induction us rule: utf8_encode.induct)
  case 1
  show ?case by simp
next
  case (2 u us)
  have u: "u < 65536" and us: "\<forall>x\<in>set us. x < 65536" using "2.prems" by simp_all
  consider (one) "u < 128" | (two) "128 \<le> u" "u < 2048"
    | (hi) "2048 \<le> u" "55296 \<le> u \<and> u < 56320"
    | (lo) "2048 \<le> u" "\<not> (55296 \<le> u \<and> u < 56320)" "56320 \<le> u \<and> u < 57344"
    | (three) "2048 \<le> u" "\<not> (55296 \<le> u \<and> u < 56320)" "\<not> (56320 \<le> u \<and> u < 57344)"
    by linarith
  then show ?case
  proof cases
    case one
    with "2.IH"(1) us show ?thesis by simp
  next
    case two
    have "u div 64 < 32" "u mod 64 < 64" using two by simp_all
    with two "2.IH"(2) us show ?thesis by simp
  next
    case hi
    show ?thesis
    proof (cases us)
      case Nil
      with hi replacement_bytes show ?thesis by simp
    next
      case (Cons v vs)
      show ?thesis
      proof (cases "56320 \<le> v \<and> v < 57344")
        case True
        have "\<forall>b\<in>set (utf8_encode vs). b < 256"
          using "2.IH"(3) [OF _ _ _ Cons True] hi us Cons by simp
        moreover have "\<forall>b\<in>set (utf8_4 (65536 + (u - 55296) * 1024 + (v - 56320))). b < 256"
        proof (rule utf8_4_bytes)
          have "u - 55296 \<le> 1023" using hi(2) by arith
          then have "(u - 55296) * 1024 \<le> 1023 * 1024" by (rule mult_le_mono1)
          then show "65536 + (u - 55296) * 1024 + (v - 56320) < 1114112"
            using True by arith
        qed
        ultimately show ?thesis using hi Cons True by auto
      next
        case False
        have "\<forall>b\<in>set (utf8_encode us). b < 256"
          using "2.IH"(4) [OF _ _ _ Cons False] hi us by simp
        with replacement_bytes show ?thesis using hi Cons False by auto
      qed
    qed
  next
    case lo
    have "\<forall>b\<in>set (utf8_encode us). b < 256"
      using "2.IH"(5) lo us by simp
    with replacement_bytes show ?thesis using lo by auto
  next
    case three
    have "\<forall>b\<in>set (utf8_encode us). b < 256"
      using "2.IH"(6) three us by simp
    with utf8_3_bytes [OF u] show ?thesis using three by auto
  qed
qed


declare utf8_encode.simps(2) [simp del]

lemma utf8_latin1_inj:
  "\<forall>c\<in>set t. c < 256 \<Longrightarrow> utf8_encode t = utf8_encode s \<Longrightarrow> s = t"
proof (induction t arbitrary: s)
  case Nil
  then show ?case by (simp add: utf8_encode_Nil [symmetric])
next
  case (Cons c cs)
  from Cons.prems(2) have "s \<noteq> []"
    by (metis utf8_encode_Nil list.distinct(1))
  then obtain u us where s: "s = u # us" by (cases s) auto
  have c: "c < 256" and cs: "\<forall>x\<in>set cs. x < 256" using Cons.prems(1) by simp_all
  have eq: "utf8_encode (c # cs) = utf8_encode (u # us)" using Cons.prems(2) s by simp
  consider (one) "u < 128" | (two) "128 \<le> u" "u < 2048" | (big) "2048 \<le> u" by linarith
  then show ?case
  proof cases
    case one
    show ?thesis
    proof (cases "c < 128")
      case True
      with one eq have "c = u" "utf8_encode cs = utf8_encode us"
        by (simp_all add: utf8_encode_one)
      with Cons.IH [OF cs] s show ?thesis by simp
    next
      case False
      with c one eq show ?thesis by (simp add: utf8_encode_one utf8_encode_two)
    qed
  next
    case two
    show ?thesis
    proof (cases "c < 128")
      case True
      with two eq show ?thesis by (simp add: utf8_encode_one utf8_encode_two)
    next
      case False
      with c two eq have "c div 64 = u div 64" "c mod 64 = u mod 64"
        "utf8_encode cs = utf8_encode us" by (simp_all add: utf8_encode_two)
      moreover from this have "c = u" by (metis div_mult_mod_eq)
      ultimately show ?thesis using Cons.IH [OF cs] s by simp
    qed
  next
    case big
    from utf8_encode_big [OF big] obtain b bs where
      b: "utf8_encode (u # us) = b # bs" "224 \<le> b" by blast
    show ?thesis
    proof (cases "c < 128")
      case True
      with eq b show ?thesis by (simp add: utf8_encode_one)
    next
      case False
      with c eq b have "192 + c div 64 = b" by (simp add: utf8_encode_two)
      with c b(2) show ?thesis by simp
    qed
  qed
qed

lemma unat_js_unit: "unat (of_nat (of_char c) :: 16 word) = of_char c"
proof -
  have "(of_char c :: nat) < 256" by simp
  also have "(256 :: nat) < 65536" by simp
  finally show ?thesis by (simp add: unat_of_nat)
qed

lemma map_unat_js: "map unat (js h) = map of_char h"
  by (simp add: js_def unat_js_unit)

lemma js_inj: "js a = js b \<longleftrightarrow> a = b"
proof
  assume "js a = js b"
  then have "map unat (js a) = map unat (js b)" by simp
  then have "map (of_char :: char \<Rightarrow> nat) a = map of_char b" by (simp add: map_unat_js)
  then show "a = b" by (simp add: inj_map_eq_map inj_on_def)
qed simp

lemma js_Nil: "js h = [] \<longleftrightarrow> h = []"
  by (simp add: js_def)

lemma length_js: "length (js h) = length h"
  by (simp add: js_def)

lemma startsWith_js: "startsWith (js h) (js p) \<longleftrightarrow> prefix p h"
proof -
  have "take (length p) (js h) = js (take (length p) h)"
    by (simp add: js_def take_map)
  then have "startsWith (js h) (js p) \<longleftrightarrow> take (length p) h = p"
    by (simp add: startsWith_def length_js js_inj)
  also have "\<dots> \<longleftrightarrow> prefix p h"
    by (metis append_eq_conv_conj prefix_def take_is_prefix)
  finally show ?thesis .
qed

lemma substring_js: "substring (js h) n = js (drop n h)"
  by (simp add: substring_def js_def drop_map)

lemma unat_units: "\<forall>u\<in>set (map unat (s :: jsstring)). u < 65536"
proof
  fix u assume "u \<in> set (map unat s)"
  then obtain w :: "16 word" where "u = unat w" by auto
  moreover have "unat w < 2 ^ LENGTH(16)" by (rule unsigned_less)
  ultimately show "u < 65536" by simp
qed

lemma map_of_nat_bytes_inj:
  "\<forall>b\<in>set xs. b < 256 \<Longrightarrow> \<forall>b\<in>set ys. b < 256 \<Longrightarrow>
   map (of_nat :: nat \<Rightarrow> 8 word) xs = map of_nat ys \<Longrightarrow> xs = ys"
proof (induction xs arbitrary: ys)
  case Nil
  then show ?case by simp
next
  case (Cons x xs)
  then obtain y ys' where ys: "ys = y # ys'" by (cases ys) auto
  with Cons.prems have xy: "(of_nat x :: 8 word) = of_nat y" and x: "x < 256" and y: "y < 256"
    by simp_all
  have ux: "unat (of_nat x :: 8 word) = x" using x by (simp add: unat_of_nat)
  have uy: "unat (of_nat y :: 8 word) = y" using y by (simp add: unat_of_nat)
  from xy have "unat (of_nat x :: 8 word) = unat (of_nat y :: 8 word)" by (rule arg_cong)
  then have "x = y" unfolding ux uy .
  moreover have "xs = ys'"
    using Cons.prems ys by (intro Cons.IH) simp_all
  ultimately show ?case using ys by simp
qed

lemma Buffer_from_js_eq: "Buffer_from (js t) = Buffer_from s \<longleftrightarrow> s = js t"
proof
  assume eq: "Buffer_from (js t) = Buffer_from s"
  have "utf8_encode (map unat (js t)) = utf8_encode (map unat s)"
    using eq unfolding Buffer_from_def
    by (intro map_of_nat_bytes_inj utf8_encode_bytes unat_units)
  moreover have "\<forall>c\<in>set (map unat (js t)). c < 256"
    by (simp add: map_unat_js)
  ultimately have "map unat s = map unat (js t)" by (rule utf8_latin1_inj [rotated])
  then show "s = js t" by (simp add: inj_map_eq_map)
qed simp

section \<open>The authentication gate\<close>

lemma length_Bearer: "length (js ''Bearer '') = 7"
  by (simp add: js_def)

lemma startsWith_append: "startsWith (p @ t) p"
  by (simp add: startsWith_def)

lemma substring_append: "substring (js ''Bearer '' @ t) 7 = t"
  by (simp add: substring_def length_Bearer)

lemma gate_misconfigured:
  "falsy (env ''BEARER_TOKEN'') \<Longrightarrow> authenticateBearer env req = misconfigured"
  by (simp add: authenticateBearer_def falsy_def split: option.splits)

lemma gate_no_credential:
  assumes "env ''BEARER_TOKEN'' = Some secret" "secret \<noteq> []"
    and "bearer_credential hdr = None"
  shows "authenticateBearer env (http_request hdr) =
         unauthorized (js ''Unauthorized: Bearer token required'')"
  using assms
  by (auto simp: authenticateBearer_def http_request_def bearer_credential_def
      startsWith_js js_Nil split: option.splits if_splits)

lemma gate_credential:
  assumes "env ''BEARER_TOKEN'' = Some secret" "secret \<noteq> []"
    and "bearer_credential hdr = Some t"
  shows "authenticateBearer env (http_request hdr) =
     (if length (Buffer_from (js t)) \<noteq> length (Buffer_from secret)
      then unauthorized (js ''Unauthorized: Invalid token'')
      else if js t \<noteq> secret
      then (TimingSafeEqualCall (Buffer_from (js t)) (Buffer_from secret)
              # fst (unauthorized (js ''Unauthorized: Invalid token'')), Returned)
      else ([TimingSafeEqualCall (Buffer_from (js t)) (Buffer_from secret)], Next))"
proof -
  from assms(3) obtain h where h: "hdr = Some h" "prefix ''Bearer '' h" "t = drop 7 h"
    by (auto simp: bearer_credential_def split: option.splits if_splits)
  then have "h \<noteq> []" by auto
  with h assms(1,2) show ?thesis
    by (auto simp: authenticateBearer_def http_request_def startsWith_js js_Nil
        substring_js Let_def timingSafeEqual_def Buffer_from_js_eq)
qed


text \<open>The gate never throws: the comparison primitive is only reached with equal lengths.\<close>

lemma authenticateBearer_never_throws: "snd (authenticateBearer env req) \<noteq> Thrown e"
  by (simp add: authenticateBearer_def misconfigured_def unauthorized_def timingSafeEqual_def
      Let_def split: option.splits)

text \<open>With the configured credential the gate calls \<open>next()\<close> and the route handler runs.\<close>

lemma authenticateBearer_accepts:
  assumes "env ''BEARER_TOKEN'' = Some secret" and "secret \<noteq> []"
    and "map_option js (bearer_credential hdr) = Some secret"
  shows "snd (authenticateBearer env (http_request hdr)) = Next"
proof -
  from assms(3) obtain t where t: "bearer_credential hdr = Some t" "js t = secret" by auto
  from gate_credential [where env = env, OF assms(1,2) t(1)] t(2) show ?thesis by simp
qed

text \<open>
  C1. For every request to \<open>POST /mcp\<close>, whatever the route handler behind the gate
  does: with \<open>BEARER_TOKEN\<close> unset or empty the only response is the 500
  misconfiguration error; with it set, a header that is absent, carries no bearer
  credential or carries a credential different from the configured one yields a single
  401 response. In both cases the gate returns without calling \<open>next()\<close>, the trace of
  the request is the gate's own trace, and it holds no registry lookup, no handler call,
  no DAV session access and no tool-call log entry.
\<close>

theorem authenticateBearer_rejects:
  "(falsy (env ''BEARER_TOKEN'') \<longrightarrow>
      post_mcp env route (http_request hdr) = fst (authenticateBearer env (http_request hdr))
      \<and> snd (authenticateBearer env (http_request hdr)) = Returned
      \<and> responses (post_mcp env route (http_request hdr))
          = [ResJson 500 (-32603) (js ''Server misconfiguration: BEARER_TOKEN not set'')]
      \<and> filter dispatch_event (post_mcp env route (http_request hdr)) = [])
   \<and> (\<not> falsy (env ''BEARER_TOKEN'')
        \<and> map_option js (bearer_credential hdr) \<noteq> env ''BEARER_TOKEN'' \<longrightarrow>
      post_mcp env route (http_request hdr) = fst (authenticateBearer env (http_request hdr))
      \<and> snd (authenticateBearer env (http_request hdr)) = Returned
      \<and> (\<exists>msg. responses (post_mcp env route (http_request hdr)) = [ResJson 401 (-32001) msg])
      \<and> filter dispatch_event (post_mcp env route (http_request hdr)) = [])"
proof (intro conjI impI)
  assume "falsy (env ''BEARER_TOKEN'')"
  then have g: "authenticateBearer env (http_request hdr) = misconfigured"
    by (rule gate_misconfigured)
  show "post_mcp env route (http_request hdr) = fst (authenticateBearer env (http_request hdr))"
    and "snd (authenticateBearer env (http_request hdr)) = Returned"
    and "responses (post_mcp env route (http_request hdr))
          = [ResJson 500 (-32603) (js ''Server misconfiguration: BEARER_TOKEN not set'')]"
    and "filter dispatch_event (post_mcp env route (http_request hdr)) = []"
    by (simp_all add: post_mcp_def g misconfigured_def responses_def)
next
  assume a: "\<not> falsy (env ''BEARER_TOKEN'')
        \<and> map_option js (bearer_credential hdr) \<noteq> env ''BEARER_TOKEN''"
  then obtain secret where s: "env ''BEARER_TOKEN'' = Some secret" "secret \<noteq> []"
    by (auto simp: falsy_def split: option.splits)
  have "authenticateBearer env (http_request hdr) \<in>
        {unauthorized (js ''Unauthorized: Bearer token required''),
         unauthorized (js ''Unauthorized: Invalid token'')}
      \<or> (\<exists>a b. authenticateBearer env (http_request hdr) =
            (TimingSafeEqualCall a b # fst (unauthorized (js ''Unauthorized: Invalid token'')),
             Returned))"
  proof (cases "bearer_credential hdr")
    case None
    from gate_no_credential [where env = env, OF s None] show ?thesis by simp
  next
    case (Some t)
    with a s have "js t \<noteq> secret" by auto
    with gate_credential [where env = env, OF s Some] show ?thesis by auto
  qed
  then show "post_mcp env route (http_request hdr) = fst (authenticateBearer env (http_request hdr))"
    and "snd (authenticateBearer env (http_request hdr)) = Returned"
    and "\<exists>msg. responses (post_mcp env route (http_request hdr)) = [ResJson 401 (-32001) msg]"
    and "filter dispatch_event (post_mcp env route (http_request hdr)) = []"
    by (auto simp: post_mcp_def unauthorized_def responses_def)
qed

theorem authenticateBearer_rejects_witness:
  "falsy (Map.empty ''BEARER_TOKEN'')
   \<and> post_mcp Map.empty (\<lambda>r. [RegistryList]) (http_request (Some ''Bearer s3cret''))
       = [Log Err (js ''Server misconfiguration: BEARER_TOKEN not set''),
          ResJson 500 (-32603) (js ''Server misconfiguration: BEARER_TOKEN not set'')]
   \<and> \<not> falsy ([''BEARER_TOKEN'' \<mapsto> js ''s3cret''] ''BEARER_TOKEN'')
   \<and> map_option js (bearer_credential (Some ''Bearer s3cres''))
         \<noteq> [''BEARER_TOKEN'' \<mapsto> js ''s3cret''] ''BEARER_TOKEN''
   \<and> snd (authenticateBearer [''BEARER_TOKEN'' \<mapsto> js ''s3cret'']
              (http_request (Some ''Bearer s3cres''))) = Returned
   \<and> post_mcp [''BEARER_TOKEN'' \<mapsto> js ''s3cret''] (\<lambda>r. [RegistryList])
          (http_request (Some ''Bearer s3cres''))
       = fst (authenticateBearer [''BEARER_TOKEN'' \<mapsto> js ''s3cret'']
              (http_request (Some ''Bearer s3cres'')))"
  using authenticateBearer_rejects [of Map.empty "\<lambda>r. [RegistryList]" "Some ''Bearer s3cret''"]
    authenticateBearer_rejects [of "[''BEARER_TOKEN'' \<mapsto> js ''s3cret'']"
      "\<lambda>r. [RegistryList]" "Some ''Bearer s3cres''"]
  by (simp add: falsy_def bearer_credential_def js_inj js_Nil misconfigured_def
      gate_misconfigured)

text \<open>
  C10. When the byte length of the presented token differs from the byte length of the
  configured token, the gate answers 401 from the length check alone: the trace holds no
  call of \<open>crypto.timingSafeEqual\<close>, and the gate returns instead of throwing. This holds
  for every header string, not only for those an HTTP parser can produce.
\<close>

theorem wrong_length_token_rejected:
  assumes "env ''BEARER_TOKEN'' = Some secret" and "secret \<noteq> []"
    and "authorization req = Some (js ''Bearer '' @ token)"
    and "length (Buffer_from token) \<noteq> length (Buffer_from secret)"
  shows "authenticateBearer env req =
           ([Log Warn (js ''Unauthorized: Invalid token''),
             ResJson 401 (-32001) (js ''Unauthorized: Invalid token'')], Returned)
         \<and> filter is_timingSafeEqual (fst (authenticateBearer env req)) = []"
proof -
  have "js ''Bearer '' \<noteq> []" by (simp add: js_def)
  with assms have "authenticateBearer env req = unauthorized (js ''Unauthorized: Invalid token'')"
    by (simp add: authenticateBearer_def startsWith_append substring_append Let_def)
  then show ?thesis by (simp add: unauthorized_def)
qed

theorem wrong_length_token_rejected_witness:
  "length (Buffer_from (js ''abc'')) \<noteq> length (Buffer_from (js ''s3cret''))
   \<and> authenticateBearer [''BEARER_TOKEN'' \<mapsto> js ''s3cret'']
        \<lparr>authorization = Some (js ''Bearer '' @ js ''abc'')\<rparr>
       = ([Log Warn (js ''Unauthorized: Invalid token''),
           ResJson 401 (-32001) (js ''Unauthorized: Invalid token'')], Returned)"
proof -
  have len: "length (Buffer_from (js ''abc'')) \<noteq> length (Buffer_from (js ''s3cret''))"
    by (simp add: Buffer_from_def map_unat_js utf8_encode_one)
  have ne: "js ''s3cret'' \<noteq> []" by (simp add: js_def)
  from wrong_length_token_rejected
    [of "[''BEARER_TOKEN'' \<mapsto> js ''s3cret'']" "js ''s3cret''"
        "\<lparr>authorization = Some (js ''Bearer '' @ js ''abc'')\<rparr>" "js ''abc''", OF _ ne _ len]
  show ?thesis using len by simp
qed

section \<open>The protocol handlers\<close>

text \<open>
  C5. For every registry, \<open>tools/list\<close> of either server returns one entry per
  registered tool, in registry order; each entry is an object with exactly the keys
  \<open>name\<close>, \<open>description\<close> and \<open>inputSchema\<close>, holding the values of the tool, so
  the handler is not exposed. The call always returns (\<open>Inr\<close>); it reads the registry
  and writes one debug line to the diagnostic logger, and does nothing else: no tool-call
  log entry, no handler invocation, no DAV session access.
\<close>

theorem listTools_returns_registry:
  "\<exists>entries.
     snd (listTools_http tools) = Inr (JObj [(''tools'', JArr entries)])
     \<and> snd (listTools_stdio tools) = Inr (JObj [(''tools'', JArr entries)])
     \<and> map keys entries = map (\<lambda>t. [''name'', ''description'', ''inputSchema'']) tools
     \<and> map (field ''name'') entries = map (\<lambda>t. Some (JStr (name t))) tools
     \<and> map (field ''description'') entries = map (\<lambda>t. Some (JStr (description t))) tools
     \<and> map (field ''inputSchema'') entries = map (\<lambda>t. Some (inputSchema t)) tools
     \<and> fst (listTools_http tools) = [Log Debug (js ''tools/list request''), RegistryList]
     \<and> fst (listTools_stdio tools)
           = [Log Debug (js ''tools/list request received''), RegistryList]
     \<and> filter call_effect (fst (listTools_http tools)) = []
     \<and> filter call_effect (fst (listTools_stdio tools)) = []"
  by (simp add: listTools_http_def listTools_stdio_def listTools_def project_def comp_def)

theorem listTools_returns_registry_witness:
  "snd (listTools_http [ping, broken])
     = Inr (JObj [(''tools'',
         JArr [JObj [(''name'', JStr (js ''ping'')), (''description'', JStr (js ''Replies'')),
                     (''inputSchema'', JObj [])],
               JObj [(''name'', JStr (js ''broken'')), (''description'', JStr (js ''Throws'')),
                     (''inputSchema'', JObj [])]])])"
  using listTools_returns_registry [of "[ping, broken]"]
  by (simp add: listTools_http_def listTools_def project_def ping_def broken_def)

lemma find_None_iff_names: "find (\<lambda>t. name t = n) tools = None \<longleftrightarrow> n \<notin> name ` set tools"
  by (auto simp: find_None_iff)

text \<open>
  C3. When the requested name is the name of no registered tool, \<open>tools/call\<close> of
  either server throws an error whose code is \<open>MCP_ERROR_CODES.METHOD_NOT_FOUND\<close>. The
  trace of the call is the request line, the registry lookup and the "Tool not found"
  line of the diagnostic logger: no handler is invoked, the tool-call logger records no
  phase, and the DAV session is not accessed.
\<close>

theorem unknown_tool_method_not_found:
  assumes "params_name params \<notin> name ` set tools"
  shows "callTool_http eh dev tools rid now0 now1 params =
           ([Log Info (js ''tools/call request''), RegistryFind (params_name params),
             Log Err (js ''Tool not found'')],
            Inl (Error (js ''Unknown tool: '' @ params_name params) (Some (METHOD_NOT_FOUND eh))))
       \<and> callTool_stdio eh dev tools now0 now1 params =
           ([Log Info (js ''tools/call request received''), RegistryFind (params_name params),
             Log Err (js ''Tool not found'')],
            Inl (Error (js ''Unknown tool: '' @ params_name params) (Some (METHOD_NOT_FOUND eh))))
       \<and> filter call_effect (fst (callTool_http eh dev tools rid now0 now1 params)) = []
       \<and> filter call_effect (fst (callTool_stdio eh dev tools now0 now1 params)) = []"
proof -
  from assms have "find (\<lambda>t. name t = params_name params) tools = None"
    by (simp add: find_None_iff_names)
  then show ?thesis by (simp add: callTool_http_def callTool_stdio_def Let_def)
qed

theorem unknown_tool_method_not_found_witness:
  "js ''nonexistent'' \<notin> name ` set [ping, broken]
   \<and> snd (callTool_http error_handler0 False [ping, broken] (js ''r1'') 10 20
           \<lparr>params_name = js ''nonexistent'', arguments = None\<rparr>)
       = Inl (Error (js ''Unknown tool: '' @ js ''nonexistent'') (Some (-32601)))"
proof -
  have h: "params_name \<lparr>params_name = js ''nonexistent'', arguments = None\<rparr>
             \<notin> name ` set [ping, broken]"
    by (simp add: ping_def broken_def js_inj)
  from unknown_tool_method_not_found [OF h, of error_handler0 False "js ''r1''" 10 20] h
  show ?thesis by (simp add: error_handler0_def)
qed

text \<open>
  C9 as stated fails: the duration that is logged can be negative. \<open>Date.now()\<close> is
  the wall clock, and here it reads 1000 before the call and 400 after it.
\<close>

theorem duration_negative_counterexample:
  "logged_duration (last (fst (callTool_http error_handler0 False [ping, broken] (js ''r1'')
       1000 400 \<lparr>params_name = js ''ping'', arguments = None\<rparr>))) = Some (-600)"
  by (simp add: callTool_http_def ping_def broken_def js_inj Let_def arguments_or_empty_def)

text \<open>
  C9, as the code has it. For every tool call that reaches a registered handler, on
  either server: the clock is read once before the start entry of the tool-call log is
  written and the handler is invoked, and once right after the handler has settled
  (returned or thrown); the duration of the success or error entry is the second reading
  minus the first. The clock is \<open>Date.now()\<close>, so nothing keeps the difference from
  being negative or from following an adjustment of the wall clock.
\<close>

theorem duration_is_wall_clock_difference:
  assumes "find (\<lambda>t. name t = params_name params) tools = Some t"
    and "handler t (arguments_or_empty (arguments params)) = (hev, out)"
  shows "(\<exists>post.
           fst (callTool_http eh dev tools rid now0 now1 params)
             = [Log Info (js ''tools/call request''), RegistryFind (params_name params),
                DateNow now0,
                ToolCallLog Start (params_name params)
                  (arguments_or_empty (arguments params))
                  \<lparr>requestId = Some rid, transport = js ''http'', duration = None\<rparr>,
                HandlerCall (params_name params) (arguments_or_empty (arguments params))]
               @ hev @
               [DateNow now1, post,
                ToolCallLog (case out of Inr r \<Rightarrow> Success r | Inl e \<Rightarrow> Failure e)
                  (params_name params) (arguments_or_empty (arguments params))
                  \<lparr>requestId = Some rid, transport = js ''http'',
                   duration = Some (now1 - now0)\<rparr>])
       \<and> (\<exists>post.
           fst (callTool_stdio eh dev tools now0 now1 params)
             = [Log Info (js ''tools/call request received''),
                RegistryFind (params_name params),
                DateNow now0,
                ToolCallLog Start (params_name params)
                  (arguments_or_empty (arguments params))
                  \<lparr>requestId = None, transport = js ''stdio'', duration = None\<rparr>,
                Log Debug (js ''Executing tool''),
                HandlerCall (params_name params) (arguments_or_empty (arguments params))]
               @ hev @
               [DateNow now1, post,
                ToolCallLog (case out of Inr r \<Rightarrow> Success r | Inl e \<Rightarrow> Failure e)
                  (params_name params) (arguments_or_empty (arguments params))
                  \<lparr>requestId = None, transport = js ''stdio'',
                   duration = Some (now1 - now0)\<rparr>])"
  using assms
  by (cases out) (simp_all add: callTool_http_def callTool_stdio_def Let_def)

theorem duration_is_wall_clock_difference_witness:
  "find (\<lambda>t. name t = params_name \<lparr>params_name = js ''broken'', arguments = None\<rparr>)
     [ping, broken] = Some broken
   \<and> handler broken (arguments_or_empty (arguments \<lparr>params_name = js ''broken'', arguments = None\<rparr>))
       = ([], Inl (CalDAVError (js ''no calendar'')))
   \<and> logged_duration (last (fst (callTool_stdio error_handler0 False [ping, broken]
         1000 1250 \<lparr>params_name = js ''broken'', arguments = None\<rparr>))) = Some 250"
proof -
  have f: "find (\<lambda>t. name t = params_name \<lparr>params_name = js ''broken'', arguments = None\<rparr>)
     [ping, broken] = Some broken"
    by (simp add: ping_def broken_def js_inj)
  have h: "handler broken
       (arguments_or_empty (arguments \<lparr>params_name = js ''broken'', arguments = None\<rparr>))
       = ([], Inl (CalDAVError (js ''no calendar'')))"
    by (simp add: broken_def)
  from duration_is_wall_clock_difference [OF f h, of error_handler0 False "js ''r1''" 1000 1250]
  show ?thesis using f h by auto
qed

section \<open>The DAV session provider\<close>

lemma login_events: "fst (login net c) = [DavLogin c]"
  by (simp add: login_def)

lemma login_fails: "net c = Some e \<Longrightarrow> login net c = ([DavLogin c], Inl e)"
  by (simp add: login_def)

lemma login_succeeds: "net c = None \<Longrightarrow> login net c = ([DavLogin c], Inr (c\<lparr>logged_in := True\<rparr>))"
  by (simp add: login_def)

lemma initializeBasicAuth_invalid:
  "falsy (username cfg) \<or> falsy (password cfg) \<Longrightarrow>
   initializeBasicAuth net cfg this =
     ([], this, Some (Error (js ''Basic Auth requires username and password'') None))"
  by (simp add: initializeBasicAuth_def)

lemma initializeBasicAuth_valid:
  assumes "\<not> falsy (username cfg)" "\<not> falsy (password cfg)"
  shows "initializeBasicAuth net cfg this =
     (case net (basic_client cfg caldav) of
        Some e \<Rightarrow>
          ([DavLogin (basic_client cfg caldav)],
           this\<lparr>calDavClient := Some (basic_client cfg caldav),
                cardDavClient := Some (basic_client cfg carddav)\<rparr>, Some e)
      | None \<Rightarrow>
          (case net (basic_client cfg carddav) of
             Some e \<Rightarrow>
               ([DavLogin (basic_client cfg caldav),
                 Log Debug (js ''CalDAV client logged in (Basic Auth)''),
                 DavLogin (basic_client cfg carddav)],
                this\<lparr>calDavClient := Some ((basic_client cfg caldav)\<lparr>logged_in := True\<rparr>),
                     cardDavClient := Some (basic_client cfg carddav)\<rparr>, Some e)
           | None \<Rightarrow>
               ([DavLogin (basic_client cfg caldav),
                 Log Debug (js ''CalDAV client logged in (Basic Auth)''),
                 DavLogin (basic_client cfg carddav),
                 Log Debug (js ''CardDAV client logged in (Basic Auth)'')],
                this\<lparr>calDavClient := Some ((basic_client cfg caldav)\<lparr>logged_in := True\<rparr>),
                     cardDavClient := Some ((basic_client cfg carddav)\<lparr>logged_in := True\<rparr>)\<rparr>,
                None)))"
  using assms
  by (simp add: initializeBasicAuth_def login_def Let_def split: option.splits)

lemma initializeOAuth_valid:
  assumes "\<not> falsy (username cfg)" "\<not> falsy (clientId cfg)"
    "\<not> falsy (clientSecret cfg)" "\<not> falsy (refreshToken cfg)"
  shows "initializeOAuth net cfg this =
     (case net (oauth_client cfg caldav) of
        Some e \<Rightarrow>
          ([Log Debug (js ''Configuring OAuth2 credentials''),
            DavLogin (oauth_client cfg caldav)],
           this\<lparr>calDavClient := Some (oauth_client cfg caldav),
                cardDavClient := Some (oauth_client cfg carddav)\<rparr>, Some e)
      | None \<Rightarrow>
          (case net (oauth_client cfg carddav) of
             Some e \<Rightarrow>
               ([Log Debug (js ''Configuring OAuth2 credentials''),
                 DavLogin (oauth_client cfg caldav),
                 Log Debug (js ''CalDAV client logged in (OAuth2)''),
                 DavLogin (oauth_client cfg carddav),
                 Log Warn (js ''CardDAV login failed (expected for Google Calendar)'')],
                this\<lparr>calDavClient := Some ((oauth_client cfg caldav)\<lparr>logged_in := True\<rparr>),
                     cardDavClient := Some (oauth_client cfg carddav)\<rparr>, None)
           | None \<Rightarrow>
               ([Log Debug (js ''Configuring OAuth2 credentials''),
                 DavLogin (oauth_client cfg caldav),
                 Log Debug (js ''CalDAV client logged in (OAuth2)''),
                 DavLogin (oauth_client cfg carddav),
                 Log Debug (js ''CardDAV client logged in (OAuth2)'')],
                this\<lparr>calDavClient := Some ((oauth_client cfg caldav)\<lparr>logged_in := True\<rparr>),
                     cardDavClient := Some ((oauth_client cfg carddav)\<lparr>logged_in := True\<rparr>)\<rparr>,
                None)))"
  using assms
  by (simp add: initializeOAuth_def login_def Let_def split: option.splits)

lemma useOAuth_simps:
  "\<not> useOAuth (js ''Basic'')" "useOAuth (js ''OAuth'')" "useOAuth (js ''Oauth'')"
  by (simp_all add: useOAuth_def js_inj)

text \<open>
  C6. In Basic mode a configuration that lacks the server URL, the user name or the
  password makes the initialization of the DAV session fail before any login, that is
  before any network call. At start-up, where the configuration comes from the
  environment, \<open>initializeTsdav\<close> checks the three fields before it calls the manager:
  the stdio server throws the error, the HTTP server logs it and ends the process with
  exit code 1. The manager checks the user name and the password of the configuration it
  is given again and leaves its clients unset when one is missing; the server URL is
  checked by the start-up function only.
\<close>

theorem basic_missing_field_fails_before_login:
  "(\<not> useOAuth (or_default (env ''AUTH_METHOD'') (js ''Basic''))
      \<and> (falsy (env ''CALDAV_SERVER_URL'') \<or> falsy (env ''CALDAV_USERNAME'')
           \<or> falsy (env ''CALDAV_PASSWORD'')) \<longrightarrow>
     initializeTsdav_http net env this =
       ([Log Info (js ''Initializing with Basic authentication''),
         Log Err (js ''Failed to initialize tsdav clients''), ProcessExit 1], this, Some 1)
     \<and> initializeTsdav_stdio net env this =
       ([Log Info (js ''Initializing with Basic authentication'')], this,
        Some (Error (js ''Basic Auth requires CALDAV_SERVER_URL, CALDAV_USERNAME, and CALDAV_PASSWORD'') None))
     \<and> filter is_login (fst (initializeTsdav_http net env this)) = []
     \<and> filter is_login (fst (initializeTsdav_stdio net env this)) = [])
   \<and> (\<not> useOAuth (or_default (authMethod cfg) (js ''Basic''))
        \<and> (falsy (username cfg) \<or> falsy (password cfg)) \<longrightarrow>
     snd (snd (initialize net cfg this))
       = Some (Error (js ''Basic Auth requires username and password'') None)
     \<and> calDavClient (fst (snd (initialize net cfg this))) = calDavClient this
     \<and> cardDavClient (fst (snd (initialize net cfg this))) = cardDavClient this
     \<and> filter is_login (fst (initialize net cfg this)) = [])"
proof (intro conjI impI)
  assume a: "\<not> useOAuth (or_default (env ''AUTH_METHOD'') (js ''Basic''))
      \<and> (falsy (env ''CALDAV_SERVER_URL'') \<or> falsy (env ''CALDAV_USERNAME'')
           \<or> falsy (env ''CALDAV_PASSWORD''))"
  then show h: "initializeTsdav_http net env this =
       ([Log Info (js ''Initializing with Basic authentication''),
         Log Err (js ''Failed to initialize tsdav clients''), ProcessExit 1], this, Some 1)"
    by (simp add: initializeTsdav_http_def)
  from a show s: "initializeTsdav_stdio net env this =
       ([Log Info (js ''Initializing with Basic authentication'')], this,
        Some (Error (js ''Basic Auth requires CALDAV_SERVER_URL, CALDAV_USERNAME, and CALDAV_PASSWORD'') None))"
    by (simp add: initializeTsdav_stdio_def)
  show "filter is_login (fst (initializeTsdav_http net env this)) = []"
    by (simp add: h)
  show "filter is_login (fst (initializeTsdav_stdio net env this)) = []"
    by (simp add: s)
next
  assume a: "\<not> useOAuth (or_default (authMethod cfg) (js ''Basic''))
        \<and> (falsy (username cfg) \<or> falsy (password cfg))"
  then have i: "initialize net cfg this =
      ([Log Info (js ''Initializing tsdav clients with Basic Auth''),
        Log Err (js ''Failed to initialize tsdav clients'')],
       this\<lparr>this_config := Some cfg,
            this_authMethod := Some (or_default (authMethod cfg) (js ''Basic''))\<rparr>,
       Some (Error (js ''Basic Auth requires username and password'') None))"
    by (simp add: initialize_def initializeBasicAuth_invalid)
  show "snd (snd (initialize net cfg this))
       = Some (Error (js ''Basic Auth requires username and password'') None)"
    and "calDavClient (fst (snd (initialize net cfg this))) = calDavClient this"
    and "cardDavClient (fst (snd (initialize net cfg this))) = cardDavClient this"
    and "filter is_login (fst (initialize net cfg this)) = []"
    by (simp_all add: i)
qed

theorem basic_missing_field_fails_before_login_witness:
  "\<not> useOAuth (or_default (env_basic_no_password ''AUTH_METHOD'') (js ''Basic''))
   \<and> falsy (env_basic_no_password ''CALDAV_PASSWORD'')
   \<and> initializeTsdav_http (\<lambda>c. None) env_basic_no_password tsdavManager =
       ([Log Info (js ''Initializing with Basic authentication''),
         Log Err (js ''Failed to initialize tsdav clients''), ProcessExit 1], tsdavManager, Some 1)
   \<and> falsy (password (config_basic\<lparr>password := None\<rparr>))
   \<and> snd (snd (initialize (\<lambda>c. None) (config_basic\<lparr>password := None\<rparr>) tsdavManager))
       = Some (Error (js ''Basic Auth requires username and password'') None)"
proof -
  have a: "\<not> useOAuth (or_default (env_basic_no_password ''AUTH_METHOD'') (js ''Basic''))"
    by (simp add: env_basic_no_password_def or_default_def useOAuth_simps)
  have b: "falsy (env_basic_no_password ''CALDAV_PASSWORD'')"
    by (simp add: env_basic_no_password_def falsy_def)
  have c: "\<not> useOAuth (or_default (authMethod (config_basic\<lparr>password := None\<rparr>)) (js ''Basic''))"
    by (simp add: config_basic_def or_default_def useOAuth_simps js_Nil)
  have d: "falsy (password (config_basic\<lparr>password := None\<rparr>))"
    by (simp add: falsy_def)
  from basic_missing_field_fails_before_login
    [where env = env_basic_no_password and cfg = "config_basic\<lparr>password := None\<rparr>"
       and net = "\<lambda>c. None" and this = tsdavManager]
    a b c d
  show ?thesis by simp
qed

lemma initialize_oauth:
  assumes "valid_oauth cfg"
  shows "initialize net cfg this =
     (case initializeOAuth net cfg
             (this\<lparr>this_config := Some cfg,
                   this_authMethod := Some (or_default (authMethod cfg) (js ''Basic''))\<rparr>) of
        (ev, this1, None) \<Rightarrow>
          (Log Info (js ''Initializing tsdav clients with OAuth2'') # ev @
             [Log Info (js ''tsdav clients initialized and logged in'')], this1, None)
      | (ev, this1, Some e) \<Rightarrow>
          (Log Info (js ''Initializing tsdav clients with OAuth2'') # ev @
             [Log Err (js ''Failed to initialize tsdav clients'')], this1, Some e))"
  using assms
  by (simp add: initialize_def valid_oauth_def Let_def split: prod.splits option.splits)

lemma initialize_basic:
  assumes "\<not> useOAuth (or_default (authMethod cfg) (js ''Basic''))"
  shows "initialize net cfg this =
     (case initializeBasicAuth net cfg
             (this\<lparr>this_config := Some cfg,
                   this_authMethod := Some (or_default (authMethod cfg) (js ''Basic''))\<rparr>) of
        (ev, this1, None) \<Rightarrow>
          (Log Info (js ''Initializing tsdav clients with Basic Auth'') # ev @
             [Log Info (js ''tsdav clients initialized and logged in'')], this1, None)
      | (ev, this1, Some e) \<Rightarrow>
          (Log Info (js ''Initializing tsdav clients with Basic Auth'') # ev @
             [Log Err (js ''Failed to initialize tsdav clients'')], this1, Some e))"
  using assms
  by (simp add: initialize_def Let_def split: prod.splits option.splits)

text \<open>
  C7. For every configuration that passes the validation of its mode, \<open>initialize\<close>
  attempts the CalDAV login first. In OAuth mode, when the CalDAV login succeeds and the
  CardDAV login fails, both logins were attempted, a warning is logged and \<open>initialize\<close>
  succeeds. In Basic mode, in the same situation, \<open>initialize\<close> fails with the error of
  the CardDAV login.
\<close>

theorem carddav_failure_by_mode:
  "(valid_oauth cfg \<longrightarrow>
      (\<exists>rest. filter is_login (fst (initialize net cfg this))
                 = DavLogin (oauth_client cfg caldav) # rest)
      \<and> (net (oauth_client cfg caldav) = None \<and> net (oauth_client cfg carddav) = Some e \<longrightarrow>
            snd (snd (initialize net cfg this)) = None
            \<and> filter is_login (fst (initialize net cfg this))
                 = [DavLogin (oauth_client cfg caldav), DavLogin (oauth_client cfg carddav)]
            \<and> Log Warn (js ''CardDAV login failed (expected for Google Calendar)'')
                 \<in> set (fst (initialize net cfg this))))
   \<and> (valid_basic cfg \<longrightarrow>
      (\<exists>rest. filter is_login (fst (initialize net cfg this))
                 = DavLogin (basic_client cfg caldav) # rest)
      \<and> (net (basic_client cfg caldav) = None \<and> net (basic_client cfg carddav) = Some e \<longrightarrow>
            snd (snd (initialize net cfg this)) = Some e
            \<and> filter is_login (fst (initialize net cfg this))
                 = [DavLogin (basic_client cfg caldav), DavLogin (basic_client cfg carddav)]))"
proof (intro conjI impI)
  assume v: "valid_oauth cfg"
  then have o: "\<not> falsy (username cfg)" "\<not> falsy (clientId cfg)"
    "\<not> falsy (clientSecret cfg)" "\<not> falsy (refreshToken cfg)"
    by (simp_all add: valid_oauth_def)
  show "\<exists>rest. filter is_login (fst (initialize net cfg this))
                 = DavLogin (oauth_client cfg caldav) # rest"
    by (simp add: initialize_oauth [OF v] initializeOAuth_valid [OF o] split: option.splits)
  assume "net (oauth_client cfg caldav) = None \<and> net (oauth_client cfg carddav) = Some e"
  then show "snd (snd (initialize net cfg this)) = None"
    and "filter is_login (fst (initialize net cfg this))
                 = [DavLogin (oauth_client cfg caldav), DavLogin (oauth_client cfg carddav)]"
    and "Log Warn (js ''CardDAV login failed (expected for Google Calendar)'')
                 \<in> set (fst (initialize net cfg this))"
    by (simp_all add: initialize_oauth [OF v] initializeOAuth_valid [OF o])
next
  assume v: "valid_basic cfg"
  then have b: "\<not> falsy (username cfg)" "\<not> falsy (password cfg)"
    and m: "\<not> useOAuth (or_default (authMethod cfg) (js ''Basic''))"
    by (simp_all add: valid_basic_def)
  show "\<exists>rest. filter is_login (fst (initialize net cfg this))
                 = DavLogin (basic_client cfg caldav) # rest"
    by (simp add: initialize_basic [OF m] initializeBasicAuth_valid [OF b] split: option.splits)
  assume "net (basic_client cfg caldav) = None \<and> net (basic_client cfg carddav) = Some e"
  then show "snd (snd (initialize net cfg this)) = Some e"
    and "filter is_login (fst (initialize net cfg this))
                 = [DavLogin (basic_client cfg caldav), DavLogin (basic_client cfg carddav)]"
    by (simp_all add: initialize_basic [OF m] initializeBasicAuth_valid [OF b])
qed

lemma valid_config_oauth: "valid_oauth config_oauth"
  by (simp add: valid_oauth_def config_oauth_def or_default_def falsy_def js_Nil useOAuth_simps)

lemma valid_config_basic: "valid_basic config_basic"
  by (simp add: valid_basic_def config_basic_def or_default_def falsy_def js_Nil useOAuth_simps)

theorem carddav_failure_by_mode_witness:
  "valid_oauth config_oauth
   \<and> no_carddav (oauth_client config_oauth caldav) = None
   \<and> no_carddav (oauth_client config_oauth carddav)
        = Some (Error (js ''CardDAV not supported'') None)
   \<and> snd (snd (initialize no_carddav config_oauth tsdavManager)) = None
   \<and> valid_basic config_basic
   \<and> no_carddav (basic_client config_basic caldav) = None
   \<and> no_carddav (basic_client config_basic carddav)
        = Some (Error (js ''CardDAV not supported'') None)
   \<and> snd (snd (initialize no_carddav config_basic tsdavManager))
        = Some (Error (js ''CardDAV not supported'') None)"
proof -
  have n: "no_carddav (oauth_client config_oauth caldav) = None"
    "no_carddav (oauth_client config_oauth carddav)
        = Some (Error (js ''CardDAV not supported'') None)"
    "no_carddav (basic_client config_basic caldav) = None"
    "no_carddav (basic_client config_basic carddav)
        = Some (Error (js ''CardDAV not supported'') None)"
    by (simp_all add: no_carddav_def oauth_client_def basic_client_def)
  from carddav_failure_by_mode
    [where cfg = config_oauth and net = no_carddav and this = tsdavManager
       and e = "Error (js ''CardDAV not supported'') None"]
    carddav_failure_by_mode
    [where cfg = config_basic and net = no_carddav and this = tsdavManager
       and e = "Error (js ''CardDAV not supported'') None"]
    valid_config_oauth valid_config_basic n
  show ?thesis by simp
qed

text \<open>
  C8. While the CalDAV client of the manager is unset, \<open>getCalDavClient\<close> throws a
  \<open>CalDAVError\<close> saying that the client is not initialized, and likewise
  \<open>getCardDavClient\<close> a \<open>CardDAVError\<close>; an accessor that returns, returns a client
  and never \<open>null\<close>. After an \<open>initialize\<close> that succeeded, each accessor returns the
  client the manager holds for its account type; the CalDAV client is logged in, and so is
  the CardDAV client in Basic mode (in OAuth mode its login may have failed).
\<close>

theorem accessors_not_initialized:
  "(calDavClient this = None \<longrightarrow>
      getCalDavClient this =
        ([Log Err (js ''CalDAV client not initialized'')],
         Inl (CalDAVError (js ''CalDAV client not initialized. Call initialize() first.''))))
   \<and> (cardDavClient this = None \<longrightarrow>
      getCardDavClient this =
        ([Log Err (js ''CardDAV client not initialized'')],
         Inl (CardDAVError (js ''CardDAV client not initialized. Call initialize() first.''))))
   \<and> (snd (getCalDavClient this) = Inr c \<longrightarrow> calDavClient this = Some c)
   \<and> (snd (getCardDavClient this) = Inr c \<longrightarrow> cardDavClient this = Some c)
   \<and> (snd (snd (initialize net cfg this)) = None \<longrightarrow>
      (\<exists>c. getCalDavClient (fst (snd (initialize net cfg this))) = ([], Inr c)
           \<and> calDavClient (fst (snd (initialize net cfg this))) = Some c
           \<and> defaultAccountType c = caldav \<and> logged_in c)
      \<and> (\<exists>c. getCardDavClient (fst (snd (initialize net cfg this))) = ([], Inr c)
           \<and> cardDavClient (fst (snd (initialize net cfg this))) = Some c
           \<and> defaultAccountType c = carddav
           \<and> (valid_basic cfg \<longrightarrow> logged_in c)))"
proof (intro conjI impI)
  assume "calDavClient this = None"
  then show "getCalDavClient this =
        ([Log Err (js ''CalDAV client not initialized'')],
         Inl (CalDAVError (js ''CalDAV client not initialized. Call initialize() first.'')))"
    by (simp add: getCalDavClient_def)
next
  assume "cardDavClient this = None"
  then show "getCardDavClient this =
        ([Log Err (js ''CardDAV client not initialized'')],
         Inl (CardDAVError (js ''CardDAV client not initialized. Call initialize() first.'')))"
    by (simp add: getCardDavClient_def)
next
  assume "snd (getCalDavClient this) = Inr c"
  then show "calDavClient this = Some c"
    by (simp add: getCalDavClient_def split: option.splits)
next
  assume "snd (getCardDavClient this) = Inr c"
  then show "cardDavClient this = Some c"
    by (simp add: getCardDavClient_def split: option.splits)
next
  assume ok: "snd (snd (initialize net cfg this)) = None"
  show "\<exists>c. getCalDavClient (fst (snd (initialize net cfg this))) = ([], Inr c)
           \<and> calDavClient (fst (snd (initialize net cfg this))) = Some c
           \<and> defaultAccountType c = caldav \<and> logged_in c"
    using ok
    by (auto simp: initialize_def initializeOAuth_def initializeBasicAuth_def login_def Let_def
        getCalDavClient_def oauth_client_def basic_client_def
        split: if_splits option.splits prod.splits)
  show "\<exists>c. getCardDavClient (fst (snd (initialize net cfg this))) = ([], Inr c)
           \<and> cardDavClient (fst (snd (initialize net cfg this))) = Some c
           \<and> defaultAccountType c = carddav
           \<and> (valid_basic cfg \<longrightarrow> logged_in c)"
    using ok
    by (auto simp: initialize_def initializeOAuth_def initializeBasicAuth_def login_def Let_def
        getCardDavClient_def oauth_client_def basic_client_def valid_basic_def
        split: if_splits option.splits prod.splits)
qed

theorem accessors_not_initialized_witness:
  "calDavClient tsdavManager = None
   \<and> snd (getCalDavClient tsdavManager)
       = Inl (CalDAVError (js ''CalDAV client not initialized. Call initialize() first.''))
   \<and> cardDavClient tsdavManager = None
   \<and> snd (getCardDavClient tsdavManager)
       = Inl (CardDAVError (js ''CardDAV client not initialized. Call initialize() first.''))
   \<and> snd (snd (initialize (\<lambda>c. None) config_basic tsdavManager)) = None
   \<and> snd (getCalDavClient (fst (snd (initialize (\<lambda>c. None) config_basic tsdavManager))))
       = Inr ((basic_client config_basic caldav)\<lparr>logged_in := True\<rparr>)"
proof -
  have v: "\<not> useOAuth (or_default (authMethod config_basic) (js ''Basic''))"
    "\<not> falsy (username config_basic)" "\<not> falsy (password config_basic)"
    using valid_config_basic by (simp_all add: valid_basic_def)
  have i: "initialize (\<lambda>c. None) config_basic tsdavManager =
      ([Log Info (js ''Initializing tsdav clients with Basic Auth''),
        DavLogin (basic_client config_basic caldav),
        Log Debug (js ''CalDAV client logged in (Basic Auth)''),
        DavLogin (basic_client config_basic carddav),
        Log Debug (js ''CardDAV client logged in (Basic Auth)''),
        Log Info (js ''tsdav clients initialized and logged in'')],
       tsdavManager\<lparr>this_config := Some config_basic,
            this_authMethod := Some (or_default (authMethod config_basic) (js ''Basic'')),
            calDavClient := Some ((basic_client config_basic caldav)\<lparr>logged_in := True\<rparr>),
            cardDavClient := Some ((basic_client config_basic carddav)\<lparr>logged_in := True\<rparr>)\<rparr>,
       None)"
    by (simp add: initialize_basic [OF v(1)] initializeBasicAuth_valid [OF v(2,3)])
  have n: "calDavClient tsdavManager = None" "cardDavClient tsdavManager = None"
    by (simp_all add: tsdavManager_def)
  from accessors_not_initialized
    [where this = tsdavManager and net = "\<lambda>c. None" and cfg = config_basic] n
  show ?thesis by (simp add: i getCalDavClient_def)
qed

section \<open>The stateless HTTP binding\<close>

lemma made_append: "made (a @ b) = made a \<union> made b"
  by (simp add: made_def)

lemma used_append: "used (a @ b) = used a \<union> used b"
  by (simp add: used_def)

lemma shut_append: "shut (a @ b) = shut a \<union> shut b"
  by (simp add: shut_def)

lemma gate_events_inert:
  "made (fst (authenticateBearer env req)) = {}"
  "used (fst (authenticateBearer env req)) = {}"
  "shut (fst (authenticateBearer env req)) = {}"
  by (simp_all add: authenticateBearer_def misconfigured_def unauthorized_def
      timingSafeEqual_def Let_def made_def used_def shut_def split: option.splits)

lemma inv_listening: "lifecycle_inv [] listening"
  by (simp add: lifecycle_inv_def listening_def made_def used_def shut_def)

lemma inv_new_response:
  assumes "lifecycle_inv tr st" "made ev = {}" "used ev = {}" "shut ev = {}"
  shows "lifecycle_inv (tr @ ev) (st\<lparr>next_res := Suc (next_res st)\<rparr>)"
  using assms unfolding lifecycle_inv_def made_append used_append shut_append
  by (simp add: less_Suc_eq)

lemma inv_mcp_route:
  assumes "lifecycle_inv tr st" "mcp_route (next_res st) (st\<lparr>next_res := Suc (next_res st)\<rparr>) = (ev, st')"
  shows "lifecycle_inv (tr @ ev) st'"
proof -
  let ?r = "next_res st" and ?t = "next_obj st" and ?s = "Suc (next_obj st)"
  have ev: "ev = [NewTransport ?r ?t, NewServer ?r ?s, OnClose ?r ?t ?s, Connect ?r ?s ?t]"
    and st': "st' = st\<lparr>next_res := Suc ?r, next_obj := Suc (Suc ?t),
                live := insert ?t (insert ?s (live st)),
                listeners := (listeners st)(?r \<mapsto> (?t, ?s)),
                frames := (frames st)(?r \<mapsto> \<lparr>transport_of = ?t, server_of = ?s,
                                              stage = AwaitConnect\<rparr>)\<rparr>"
    using assms(2) by (auto simp: mcp_route_def Let_def)
  have m: "made (tr @ ev) = insert (?r, ?t) (insert (?r, ?s) (made tr))"
    and u: "used (tr @ ev) = insert (?r, ?t) (insert (?r, ?s) (used tr))"
    and c: "shut (tr @ ev) = shut tr"
    by (auto simp: ev made_def used_def shut_def)
  from assms(1) have
    i1: "\<And>r x. (r, x) \<in> made tr \<Longrightarrow> r < ?r \<and> x < ?t"
    and i2: "\<And>r r' x. (r, x) \<in> made tr \<Longrightarrow> (r', x) \<in> made tr \<Longrightarrow> r = r'"
    and i3: "used tr \<subseteq> made tr"
    and i4: "\<And>r t s. listeners st r = Some (t, s) \<Longrightarrow> (r, t) \<in> made tr \<and> (r, s) \<in> made tr"
    and i5: "\<And>r x. (r, x) \<in> made tr \<Longrightarrow> \<exists>t s. listeners st r = Some (t, s) \<and> (x = t \<or> x = s)"
    and i6: "\<And>r f. frames st r = Some f \<Longrightarrow> listeners st r = Some (transport_of f, server_of f)"
    and i7: "\<And>r x. (r, x) \<in> made tr \<Longrightarrow> r \<in> closed st \<Longrightarrow> x \<notin> live st \<and> x \<in> shut tr"
    and i8: "\<And>x. x \<in> live st \<Longrightarrow> \<exists>r. (r, x) \<in> made tr \<and> r \<notin> closed st"
    and i9: "\<And>r. r \<in> closed st \<Longrightarrow> r < ?r"
    unfolding lifecycle_inv_def by blast+
  show ?thesis
    unfolding lifecycle_inv_def m u c
  proof (intro conjI allI impI)
    fix r x assume "(r, x) \<in> insert (?r, ?t) (insert (?r, ?s) (made tr))"
    then show "r < next_res st'" "x < next_obj st'"
      using i1 by (auto simp: st' less_Suc_eq)
  next
    fix r r' x
    assume "(r, x) \<in> insert (?r, ?t) (insert (?r, ?s) (made tr))
          \<and> (r', x) \<in> insert (?r, ?t) (insert (?r, ?s) (made tr))"
    then show "r = r'" using i1 i2 by (auto dest: i1)
  next
    show "insert (?r, ?t) (insert (?r, ?s) (used tr))
          \<subseteq> insert (?r, ?t) (insert (?r, ?s) (made tr))"
      using i3 by auto
  next
    fix r t s assume "listeners st' r = Some (t, s)"
    then show "(r, t) \<in> insert (?r, ?t) (insert (?r, ?s) (made tr))"
      "(r, s) \<in> insert (?r, ?t) (insert (?r, ?s) (made tr))"
      using i4 by (auto simp: st' split: if_splits)
  next
    fix r x assume a: "(r, x) \<in> insert (?r, ?t) (insert (?r, ?s) (made tr))"
    show "\<exists>t s. listeners st' r = Some (t, s) \<and> (x = t \<or> x = s)"
    proof (cases "r = ?r")
      case True
      with a i1 show ?thesis by (auto simp: st')
    next
      case False
      with a have "(r, x) \<in> made tr" by auto
      from i5 [OF this] False show ?thesis by (simp add: st')
    qed
  next
    fix r f assume "frames st' r = Some f"
    then show "listeners st' r = Some (transport_of f, server_of f)"
      using i6 by (auto simp: st' split: if_splits)
  next
    fix r x
    assume a: "(r, x) \<in> insert (?r, ?t) (insert (?r, ?s) (made tr)) \<and> r \<in> closed st'"
    then have cl: "r \<in> closed st" by (simp add: st')
    with i9 have "r \<noteq> ?r" by auto
    with a have mk: "(r, x) \<in> made tr" by auto
    from i7 [OF mk cl] i1 [OF mk] show "x \<notin> live st'" "x \<in> shut tr"
      by (auto simp: st')
  next
    fix x assume "x \<in> live st'"
    then consider "x = ?t" | "x = ?s" | "x \<in> live st" by (auto simp: st')
    then show "\<exists>r. (r, x) \<in> insert (?r, ?t) (insert (?r, ?s) (made tr)) \<and> r \<notin> closed st'"
    proof cases
      case 1
      then show ?thesis using i9 [of ?r] by (auto simp: st')
    next
      case 2
      then show ?thesis using i9 [of ?r] by (auto simp: st')
    next
      case 3
      from i8 [OF this] show ?thesis by (auto simp: st')
    qed
  next
    fix r assume "r \<in> closed st'"
    then show "r < next_res st'" using i9 by (auto simp: st' less_Suc_eq)
  qed
qed

lemma inv_frames_update:
  assumes "lifecycle_inv tr st" "frames st r = Some f"
  shows "lifecycle_inv tr (st\<lparr>frames := (frames st)(r \<mapsto> f\<lparr>stage := g\<rparr>)\<rparr>)"
  using assms unfolding lifecycle_inv_def by simp

lemma inv_inert_events:
  assumes "lifecycle_inv tr st" "made ev = {}" "used ev = {}" "shut ev = {}"
  shows "lifecycle_inv (tr @ ev) st"
  using assms unfolding lifecycle_inv_def made_append used_append shut_append by simp

lemma inv_handle_request:
  assumes "lifecycle_inv tr st" "frames st r = Some f"
  shows "lifecycle_inv (tr @ [HandleRequest r (transport_of f)]) st"
proof -
  from assms have "(r, transport_of f) \<in> made tr"
    unfolding lifecycle_inv_def by blast
  then have "used (tr @ [HandleRequest r (transport_of f)]) \<subseteq> made tr"
    using assms(1) unfolding lifecycle_inv_def by (simp add: used_def)
  moreover have "made (tr @ [HandleRequest r (transport_of f)]) = made tr"
    "shut (tr @ [HandleRequest r (transport_of f)]) = shut tr"
    by (simp_all add: made_def shut_def)
  ultimately show ?thesis using assms(1) unfolding lifecycle_inv_def by simp
qed

lemma inv_resume:
  assumes "lifecycle_inv tr st" "resume r outcome headersSent st = (ev, st')"
  shows "lifecycle_inv (tr @ ev) st'"
proof (cases "frames st r")
  case None
  with assms show ?thesis by (simp add: resume_def)
next
  case (Some f)
  show ?thesis
  proof (cases "stage f = Finished")
    case True
    with Some assms show ?thesis by (simp add: resume_def)
  next
    case nf: False
    show ?thesis
    proof (cases outcome)
      case (Some e)
      with \<open>frames st r = Some f\<close> nf assms(2)
      have st': "st' = st\<lparr>frames := (frames st)(r \<mapsto> f\<lparr>stage := Finished\<rparr>)\<rparr>"
        and ev: "made ev = {}" "used ev = {}" "shut ev = {}"
        by (auto simp: resume_def made_def used_def shut_def split: if_splits)
      from inv_inert_events [OF assms(1) ev] have "lifecycle_inv (tr @ ev) st" .
      from inv_frames_update [OF this \<open>frames st r = Some f\<close>] show ?thesis by (simp add: st')
    next
      case None
      show ?thesis
      proof (cases "stage f = AwaitConnect")
        case True
        with None \<open>frames st r = Some f\<close> assms(2)
        have st': "st' = st\<lparr>frames := (frames st)(r \<mapsto> f\<lparr>stage := AwaitHandle\<rparr>)\<rparr>"
          and ev: "ev = [HandleRequest r (transport_of f)]"
          by (auto simp: resume_def)
        from inv_handle_request [OF assms(1) \<open>frames st r = Some f\<close>]
        have "lifecycle_inv (tr @ ev) st" by (simp add: ev)
        from inv_frames_update [OF this \<open>frames st r = Some f\<close>] show ?thesis by (simp add: st')
      next
        case False
        with None nf \<open>frames st r = Some f\<close> assms(2)
        have st': "st' = st\<lparr>frames := (frames st)(r \<mapsto> f\<lparr>stage := Finished\<rparr>)\<rparr>"
          and ev: "ev = []"
          by (auto simp: resume_def)
        from inv_frames_update [OF assms(1) \<open>frames st r = Some f\<close>] show ?thesis
          by (simp add: st' ev)
      qed
    qed
  qed
qed

lemma inv_res_close:
  assumes "lifecycle_inv tr st" "res_close r st = (ev, st')"
  shows "lifecycle_inv (tr @ ev) st'"
proof (cases "r < next_res st \<and> r \<notin> closed st")
  case False
  with assms show ?thesis by (auto simp: res_close_def)
next
  case opn: True
  from assms(1) have
    i1: "\<And>r x. (r, x) \<in> made tr \<Longrightarrow> r < next_res st \<and> x < next_obj st"
    and i2: "\<And>r r' x. (r, x) \<in> made tr \<Longrightarrow> (r', x) \<in> made tr \<Longrightarrow> r = r'"
    and i3: "used tr \<subseteq> made tr"
    and i4: "\<And>r t s. listeners st r = Some (t, s) \<Longrightarrow> (r, t) \<in> made tr \<and> (r, s) \<in> made tr"
    and i5: "\<And>r x. (r, x) \<in> made tr \<Longrightarrow> \<exists>t s. listeners st r = Some (t, s) \<and> (x = t \<or> x = s)"
    and i6: "\<And>r f. frames st r = Some f \<Longrightarrow> listeners st r = Some (transport_of f, server_of f)"
    and i7: "\<And>r x. (r, x) \<in> made tr \<Longrightarrow> r \<in> closed st \<Longrightarrow> x \<notin> live st \<and> x \<in> shut tr"
    and i8: "\<And>x. x \<in> live st \<Longrightarrow> \<exists>r. (r, x) \<in> made tr \<and> r \<notin> closed st"
    and i9: "\<And>r. r \<in> closed st \<Longrightarrow> r < next_res st"
    unfolding lifecycle_inv_def by blast+
  show ?thesis
  proof (cases "listeners st r")
    case None
    with opn assms(2) have ev: "ev = []" and st': "st' = st\<lparr>closed := insert r (closed st)\<rparr>"
      by (auto simp: res_close_def)
    have nomade: "\<And>x. (r, x) \<notin> made tr" using i5 None by fastforce
    show ?thesis
      unfolding lifecycle_inv_def ev st'
    proof (intro conjI allI impI)
      fix q x assume "(q, x) \<in> made (tr @ []) \<and> q \<in> closed (st\<lparr>closed := insert r (closed st)\<rparr>)"
      then have "(q, x) \<in> made tr" "q \<in> closed st" using nomade by auto
      from i7 [OF this] show "x \<notin> live (st\<lparr>closed := insert r (closed st)\<rparr>)" "x \<in> shut (tr @ [])"
        by simp_all
    next
      fix x assume "x \<in> live (st\<lparr>closed := insert r (closed st)\<rparr>)"
      then have "x \<in> live st" by simp
      from i8 [OF this] obtain q where "(q, x) \<in> made tr" "q \<notin> closed st" by blast
      with nomade show "\<exists>q. (q, x) \<in> made (tr @ []) \<and> q \<notin> closed (st\<lparr>closed := insert r (closed st)\<rparr>)"
        by auto
    qed (use i1 i2 i3 i4 i5 i6 i9 opn in \<open>auto\<close>)
  next
    case (Some p)
    obtain t s where p: "p = (t, s)" by (cases p)
    with Some opn assms(2) have ev: "ev = [TransportClose r t, ServerClose r s]"
      and st': "st' = st\<lparr>closed := insert r (closed st), live := live st - {t, s}\<rparr>"
      by (auto simp: res_close_def)
    have l: "listeners st r = Some (t, s)" using Some p by simp
    have m: "made (tr @ ev) = made tr"
      and u: "used (tr @ ev) = insert (r, t) (insert (r, s) (used tr))"
      and c: "shut (tr @ ev) = insert t (insert s (shut tr))"
      by (auto simp: ev made_def used_def shut_def)
    show ?thesis
      unfolding lifecycle_inv_def m u c
    proof (intro conjI allI impI)
      show "insert (r, t) (insert (r, s) (used tr)) \<subseteq> made tr"
        using i3 i4 [OF l] by auto
    next
      fix q x assume a: "(q, x) \<in> made tr \<and> q \<in> closed st'"
      show "x \<notin> live st'" "x \<in> insert t (insert s (shut tr))"
      proof -
        have "x \<notin> live st' \<and> x \<in> insert t (insert s (shut tr))"
        proof (cases "q = r")
          case True
          with a i5 [of r x] l show ?thesis by (auto simp: st')
        next
          case False
          with a have "q \<in> closed st" by (simp add: st')
          with i7 [of q x] a show ?thesis by (auto simp: st')
        qed
        then show "x \<notin> live st'" "x \<in> insert t (insert s (shut tr))" by simp_all
      qed
    next
      fix x assume "x \<in> live st'"
      then have x: "x \<in> live st" "x \<noteq> t" "x \<noteq> s" by (auto simp: st')
      from i8 [OF x(1)] obtain q where q: "(q, x) \<in> made tr" "q \<notin> closed st" by blast
      have "q \<noteq> r" using i5 [OF q(1)] l x by auto
      with q show "\<exists>q. (q, x) \<in> made tr \<and> q \<notin> closed st'" by (auto simp: st')
    qed (use i1 i2 i4 i5 i6 i9 opn in \<open>auto simp: st'\<close>)
  qed
qed

lemma inv_step:
  assumes "lifecycle_inv tr st" "step env st i = (ev, st')"
  shows "lifecycle_inv (tr @ ev) st'"
proof (cases i)
  case (Arrive req)
  obtain gev out where g: "authenticateBearer env req = (gev, out)" by (cases "authenticateBearer env req")
  have inert: "made gev = {}" "used gev = {}" "shut gev = {}"
    using gate_events_inert [of env req] g by simp_all
  show ?thesis
  proof (cases out)
    case Next
    obtain rev st1 where r: "mcp_route (next_res st) (st\<lparr>next_res := Suc (next_res st)\<rparr>) = (rev, st1)"
      by (cases "mcp_route (next_res st) (st\<lparr>next_res := Suc (next_res st)\<rparr>)")
    with Arrive g Next assms(2) have e: "ev = gev @ rev" "st' = st1" by simp_all
    from inv_inert_events [OF assms(1) inert] have "lifecycle_inv (tr @ gev) st" .
    from inv_mcp_route [OF this r] show ?thesis by (simp add: e)
  next
    case Returned
    with Arrive g assms(2) have "ev = gev" "st' = st\<lparr>next_res := Suc (next_res st)\<rparr>" by simp_all
    with inv_new_response [OF assms(1) inert] show ?thesis by simp
  next
    case (Thrown e)
    with Arrive g assms(2) have "ev = gev" "st' = st\<lparr>next_res := Suc (next_res st)\<rparr>" by simp_all
    with inv_new_response [OF assms(1) inert] show ?thesis by simp
  qed
next
  case (Settled r outcome headersSent)
  with assms inv_resume show ?thesis by simp
next
  case (Close r)
  with assms inv_res_close show ?thesis by simp
qed

lemma inv_run:
  "lifecycle_inv tr st \<Longrightarrow> run env st ins = (ev, st') \<Longrightarrow> lifecycle_inv (tr @ ev) st'"
proof (induction ins arbitrary: tr st ev st')
  case Nil
  then show ?case by simp
next
  case (Cons i ins)
  obtain ev1 st1 where s: "step env st i = (ev1, st1)" by (cases "step env st i")
  obtain ev2 st2 where r: "run env st1 ins = (ev2, st2)" by (cases "run env st1 ins")
  from Cons.prems(2) s r have e: "ev = ev1 @ ev2" "st' = st2" by simp_all
  from inv_step [OF Cons.prems(1) s] have "lifecycle_inv (tr @ ev1) st1" .
  from Cons.IH [OF this r] show ?case by (simp add: e)
qed

lemma run_append:
  "run env st (a @ b) =
     (case run env st a of
        (ev1, st1) \<Rightarrow> (case run env st1 b of (ev2, st2) \<Rightarrow> (ev1 @ ev2, st2)))"
  by (induction a arbitrary: st) (simp_all split: prod.splits)

lemma inv_reached: "lifecycle_inv (fst (run env listening ins)) (snd (run env listening ins))"
  using inv_run [OF inv_listening, of env ins] by (cases "run env listening ins") simp

lemma gate_accepts_events:
  assumes "env ''BEARER_TOKEN'' = Some secret" and "secret \<noteq> []"
    and "map_option js (bearer_credential hdr) = Some secret"
  shows "authenticateBearer env (http_request hdr) =
           ([TimingSafeEqualCall (Buffer_from secret) (Buffer_from secret)], Next)"
proof -
  from assms(3) obtain t where t: "bearer_credential hdr = Some t" "js t = secret" by auto
  from gate_credential [where env = env, OF assms(1,2) t(1)] t(2) show ?thesis by simp
qed

text \<open>
  C4. For every sequence of arrivals, settled promises and closed responses, handled
  from start-up: an instance is constructed for one request alone, and only that request
  uses it (registers it, connects it, hands it the request, closes it); once the response
  of a request has closed, the instances constructed for it are closed and are no longer
  alive, so every instance still alive belongs to a request whose response is open; the
  close of a response closes the transport and the server of its request, whatever the
  handler has done by then. A request that passes the gate gets a transport and a
  server that no earlier request was given, and registers the close listener for them
  before its first \<open>await\<close>.
\<close>

theorem per_request_instances:
  "((r, x) \<in> made (fst (run env listening ins)) \<and> (r', x) \<in> made (fst (run env listening ins))
      \<longrightarrow> r = r')
   \<and> ((r, x) \<in> used (fst (run env listening ins)) \<longrightarrow> (r, x) \<in> made (fst (run env listening ins)))
   \<and> ((r, x) \<in> used (fst (run env listening ins)) \<and> (r', x) \<in> used (fst (run env listening ins))
      \<longrightarrow> r = r')
   \<and> ((r, x) \<in> made (fst (run env listening ins)) \<and> r \<in> closed (snd (run env listening ins))
      \<longrightarrow> x \<notin> live (snd (run env listening ins)) \<and> x \<in> shut (fst (run env listening ins)))
   \<and> (x \<in> live (snd (run env listening ins))
      \<longrightarrow> (\<exists>q. (q, x) \<in> made (fst (run env listening ins))
               \<and> q \<notin> closed (snd (run env listening ins))))
   \<and> ((r, x) \<in> made (fst (run env listening ins))
      \<longrightarrow> x \<notin> live (snd (run env listening (ins @ [Close r])))
          \<and> x \<in> shut (fst (run env listening (ins @ [Close r]))))
   \<and> (snd (authenticateBearer env req) = Next \<longrightarrow>
        (\<exists>t s. fst (run env listening (ins @ [Arrive req]))
                 = fst (run env listening ins) @ fst (authenticateBearer env req)
                   @ [NewTransport (next_res (snd (run env listening ins))) t,
                      NewServer (next_res (snd (run env listening ins))) s,
                      OnClose (next_res (snd (run env listening ins))) t s,
                      Connect (next_res (snd (run env listening ins))) s t]
              \<and> t \<noteq> s
              \<and> (r, t) \<notin> made (fst (run env listening ins))
              \<and> (r, s) \<notin> made (fst (run env listening ins))
              \<and> (next_res (snd (run env listening ins)), x)
                   \<notin> made (fst (run env listening ins))))"
proof -
  obtain tr st where run: "run env listening ins = (tr, st)" by (cases "run env listening ins")
  from inv_reached [of env ins] have i: "lifecycle_inv tr st" by (simp add: run)
  then have
    i1: "\<And>r x. (r, x) \<in> made tr \<Longrightarrow> r < next_res st \<and> x < next_obj st"
    and i2: "\<And>r r' x. (r, x) \<in> made tr \<Longrightarrow> (r', x) \<in> made tr \<Longrightarrow> r = r'"
    and i3: "used tr \<subseteq> made tr"
    and i7: "\<And>r x. (r, x) \<in> made tr \<Longrightarrow> r \<in> closed st \<Longrightarrow> x \<notin> live st \<and> x \<in> shut tr"
    and i8: "\<And>x. x \<in> live st \<Longrightarrow> \<exists>r. (r, x) \<in> made tr \<and> r \<notin> closed st"
    unfolding lifecycle_inv_def by blast+
  have a: "(r, x) \<in> made tr \<and> (r', x) \<in> made tr \<longrightarrow> r = r'" using i2 by blast
  have b: "(r, x) \<in> used tr \<longrightarrow> (r, x) \<in> made tr" using i3 by blast
  have c: "(r, x) \<in> used tr \<and> (r', x) \<in> used tr \<longrightarrow> r = r'" using i2 i3 by blast
  have d: "(r, x) \<in> made tr \<and> r \<in> closed st \<longrightarrow> x \<notin> live st \<and> x \<in> shut tr"
    using i7 by blast
  have e: "x \<in> live st \<longrightarrow> (\<exists>q. (q, x) \<in> made tr \<and> q \<notin> closed st)" using i8 by blast
  have f: "(r, x) \<in> made tr \<longrightarrow>
      x \<notin> live (snd (run env listening (ins @ [Close r])))
      \<and> x \<in> shut (fst (run env listening (ins @ [Close r])))"
  proof
    assume m: "(r, x) \<in> made tr"
    obtain ev2 st2 where s: "res_close r st = (ev2, st2)" by (cases "res_close r st")
    have r2: "run env listening (ins @ [Close r]) = (tr @ ev2, st2)"
      by (simp add: run_append run s)
    from inv_reached [of env "ins @ [Close r]"] have i': "lifecycle_inv (tr @ ev2) st2"
      by (simp add: r2)
    have "r < next_res st" using i1 [OF m] by simp
    then have "r \<in> closed st2" using s
      by (auto simp: res_close_def split: if_splits option.splits)
    moreover have "(r, x) \<in> made (tr @ ev2)" using m by (simp add: made_append)
    ultimately have "x \<notin> live st2 \<and> x \<in> shut (tr @ ev2)"
      using i' unfolding lifecycle_inv_def by blast
    then show "x \<notin> live (snd (run env listening (ins @ [Close r])))
      \<and> x \<in> shut (fst (run env listening (ins @ [Close r])))"
      by (simp add: r2)
  qed
  have g: "snd (authenticateBearer env req) = Next \<longrightarrow>
        (\<exists>t s. fst (run env listening (ins @ [Arrive req]))
                 = tr @ fst (authenticateBearer env req)
                   @ [NewTransport (next_res st) t, NewServer (next_res st) s,
                      OnClose (next_res st) t s, Connect (next_res st) s t]
              \<and> t \<noteq> s \<and> (r, t) \<notin> made tr \<and> (r, s) \<notin> made tr
              \<and> (next_res st, x) \<notin> made tr)"
  proof
    assume n: "snd (authenticateBearer env req) = Next"
    then obtain gev where gv: "authenticateBearer env req = (gev, Next)"
      by (cases "authenticateBearer env req") simp
    have "fst (run env listening (ins @ [Arrive req]))
            = tr @ gev @ [NewTransport (next_res st) (next_obj st),
                          NewServer (next_res st) (Suc (next_obj st)),
                          OnClose (next_res st) (next_obj st) (Suc (next_obj st)),
                          Connect (next_res st) (Suc (next_obj st)) (next_obj st)]"
      by (simp add: run_append run gv mcp_route_def Let_def)
    moreover have "(r, next_obj st) \<notin> made tr" "(r, Suc (next_obj st)) \<notin> made tr"
      "(next_res st, x) \<notin> made tr"
      using i1 by fastforce+
    ultimately have "fst (run env listening (ins @ [Arrive req]))
                 = tr @ gev
                   @ [NewTransport (next_res st) (next_obj st),
                      NewServer (next_res st) (Suc (next_obj st)),
                      OnClose (next_res st) (next_obj st) (Suc (next_obj st)),
                      Connect (next_res st) (Suc (next_obj st)) (next_obj st)]
              \<and> next_obj st \<noteq> Suc (next_obj st)
              \<and> (r, next_obj st) \<notin> made tr \<and> (r, Suc (next_obj st)) \<notin> made tr
              \<and> (next_res st, x) \<notin> made tr"
      by simp
    then show "\<exists>t s. fst (run env listening (ins @ [Arrive req]))
                 = tr @ fst (authenticateBearer env req)
                   @ [NewTransport (next_res st) t, NewServer (next_res st) s,
                      OnClose (next_res st) t s, Connect (next_res st) s t]
              \<and> t \<noteq> s \<and> (r, t) \<notin> made tr \<and> (r, s) \<notin> made tr
              \<and> (next_res st, x) \<notin> made tr"
      unfolding gv fst_conv by blast
  qed
  from a b c d e f g show ?thesis by (simp only: run fst_conv snd_conv)
qed

lemma gate_env_secret:
  "authenticateBearer env_secret (http_request (Some ''Bearer s3cret'')) =
     ([TimingSafeEqualCall (Buffer_from (js ''s3cret'')) (Buffer_from (js ''s3cret''))], Next)"
proof -
  have "js ''s3cret'' \<noteq> []" by (simp add: js_Nil)
  then show ?thesis
    by (intro gate_accepts_events) (simp_all add: env_secret_def bearer_credential_def)
qed

lemma run_two_requests:
  "made (fst (run env_secret listening two_requests)) = {(0, 0), (0, 1), (1, 2), (1, 3)}"
  "used (fst (run env_secret listening two_requests)) = {(0, 0), (0, 1), (1, 2), (1, 3)}"
  "closed (snd (run env_secret listening two_requests)) = {0}"
  "live (snd (run env_secret listening two_requests)) = {2, 3}"
  "next_res (snd (run env_secret listening two_requests)) = 2"
  by (auto simp: two_requests_def gate_env_secret listening_def mcp_route_def resume_def
      res_close_def Let_def made_def used_def)

theorem per_request_instances_witness:
  "(0, 1) \<in> made (fst (run env_secret listening two_requests))
   \<and> (0, 1) \<in> used (fst (run env_secret listening two_requests))
   \<and> 0 \<in> closed (snd (run env_secret listening two_requests))
   \<and> 1 \<notin> live (snd (run env_secret listening two_requests))
   \<and> 1 \<in> shut (fst (run env_secret listening two_requests))
   \<and> 2 \<in> live (snd (run env_secret listening two_requests))
   \<and> (1, 2) \<in> made (fst (run env_secret listening two_requests))
   \<and> 2 \<notin> live (snd (run env_secret listening (two_requests @ [Close 1])))
   \<and> snd (authenticateBearer env_secret (http_request (Some ''Bearer s3cret''))) = Next
   \<and> (\<exists>t s. fst (run env_secret listening
                    (two_requests @ [Arrive (http_request (Some ''Bearer s3cret''))]))
               = fst (run env_secret listening two_requests)
                 @ fst (authenticateBearer env_secret (http_request (Some ''Bearer s3cret'')))
                 @ [NewTransport 2 t, NewServer 2 s, OnClose 2 t s, Connect 2 s t]
             \<and> (0, t) \<notin> made (fst (run env_secret listening two_requests))
             \<and> (0, s) \<notin> made (fst (run env_secret listening two_requests)))"
  using per_request_instances
      [where r = 0 and x = 1 and env = env_secret and ins = two_requests and r' = 0
         and req = "http_request (Some ''Bearer s3cret'')"]
    per_request_instances
      [where r = 1 and x = 2 and env = env_secret and ins = two_requests and r' = 1
         and req = "http_request (Some ''Bearer s3cret'')"]
  by (simp add: run_two_requests gate_env_secret) blast

end
